theory Spec2Isabelle
  imports Complex_Main "HOL-Library.Word"
begin

section \<open>Fast relaxed vector fitting: a model of \<^verbatim>\<open>vectfit.cpp\<close>\<close>

text \<open>
  The function \<^verbatim>\<open>vectfit\<close> approximates the rows of \<open>f\<close>, sampled at the points \<open>s\<close>,
  by a rational function with a common set of poles. This theory embeds its argument
  checks, its control flow, the classification of the poles, the construction of the
  basis matrices, the treatment of the coefficients of the scaling function, the matrices
  of the pole update and the recombination of the residues.

  Conventions of the model.
  \<^item> A \<^verbatim>\<open>double\<close> is a \<open>real\<close> and a \<^verbatim>\<open>std::complex<double>\<close> a \<open>complex\<close>: rounding and
    overflow are not modelled. The non-finite values the model knows are the results of a
    division by an exact zero: an entry of a basis matrix can hold one (\<open>NonFinite\<close>), and so
    can the RMS error (\<open>xreal\<close>).
  \<^item> The sizes \<^verbatim>\<open>Nv\<close>, \<^verbatim>\<open>Ns\<close>, \<^verbatim>\<open>N\<close> (\<^verbatim>\<open>size_t\<close>) are natural numbers; \<^verbatim>\<open>n_polys\<close> is a 32-bit
    \<^verbatim>\<open>int\<close> and its cast to \<^verbatim>\<open>size_t\<close> a 64-bit word.
  \<^item> A \<^verbatim>\<open>throw\<close> is a result \<open>Inl e\<close>; every function that can throw returns \<open>error + 'a\<close>.
  \<^item> The routines of the linear-algebra library (QR decomposition, least squares,
    eigenvalues) and the floating-point assembly of the systems they solve are parameters
    of the model (\<open>kernels\<close>): every theorem holds for whatever they return.
\<close>

subsection \<open>Errors, arrays and matrices\<close>

text \<open>
  \<open>InvalidArgument\<close> and \<open>RuntimeError\<close> are \<^verbatim>\<open>std::invalid_argument\<close> and
  \<^verbatim>\<open>std::runtime_error\<close> with the message of the source. \<open>LibraryFailure\<close> is an exception
  of a library routine. \<open>OutOfBounds i j\<close> is the outcome of the checked element access
  \<open>mat_set\<close> at an index \<open>(i, j)\<close> outside the shape of the matrix; the loop that is modelled
  with it (the recombination of the residues) is proved never to produce it on poles that
  the classification accepts.
\<close>

datatype error =
    InvalidArgument string
  | RuntimeError string
  | LibraryFailure
  | OutOfBounds nat nat

text \<open>\<^verbatim>\<open>xt::pyarray<double>\<close>: a shape and the elements in row-major order.\<close>

record ndarray =
  shape :: "nat list"
  elems :: "real list"

definition dimension :: "ndarray \<Rightarrow> nat" where
  "dimension a = length (shape a)"

definition size_nd :: "ndarray \<Rightarrow> nat" where
  "size_nd a = prod_list (shape a)"

text \<open>Element \<open>k\<close> of a one-dimensional array.\<close>

definition at1 :: "ndarray \<Rightarrow> nat \<Rightarrow> real" where
  "at1 a k = elems a ! k"

text \<open>\<^verbatim>\<open>xt::linalg::norm\<close> of a whole array: the square root of the sum of the squares.\<close>

definition norm_nd :: "ndarray \<Rightarrow> real" where
  "norm_nd a = sqrt (sum_list (map (\<lambda>v. v\<^sup>2) (elems a)))"

text \<open>
  The result of a division of two \<^verbatim>\<open>double\<close>s: the quotient, or for a divisor 0 an infinity
  with the sign of the dividend, or NaN for \<open>0 / 0\<close>.
\<close>

datatype xreal = Number real | PosInf | NegInf | NaN

definition xdivide :: "real \<Rightarrow> real \<Rightarrow> xreal" where
  "xdivide a b =
     (if b \<noteq> 0 then Number (a / b)
      else if a = 0 then NaN
      else if 0 < a then PosInf
      else NegInf)"

text \<open>A matrix (\<^verbatim>\<open>xt::xtensor<T, 2>\<close>) is the list of its rows.\<close>

type_synonym 'a mat = "'a list list"

definition full :: "nat \<Rightarrow> nat \<Rightarrow> 'a \<Rightarrow> 'a mat" where
  "full r c v = replicate r (replicate c v)"

text \<open>\<^verbatim>\<open>xt::view(M, xt::all(), j) = col\<close>\<close>

definition set_col :: "'a mat \<Rightarrow> nat \<Rightarrow> 'a list \<Rightarrow> 'a mat" where
  "set_col M j col = map (\<lambda>k. (M ! k)[j := col ! k]) [0..<length M]"

text \<open>\<^verbatim>\<open>xt::view(M, n) = row\<close>\<close>

definition set_row :: "'a mat \<Rightarrow> nat \<Rightarrow> 'a list \<Rightarrow> 'a mat" where
  "set_row M n row = M[n := row]"

text \<open>\<^verbatim>\<open>M(i, j) = v\<close>, with the bounds checked.\<close>

definition mat_set :: "'a mat \<Rightarrow> nat \<Rightarrow> nat \<Rightarrow> 'a \<Rightarrow> error + 'a mat" where
  "mat_set M i j v =
     (if i < length M \<and> j < length (M ! i) then Inr (M[i := (M ! i)[j := v]])
      else Inl (OutOfBounds i j))"

text \<open>Sequencing of two steps of which the first can throw.\<close>

definition then_do :: "error + 'a \<Rightarrow> ('a \<Rightarrow> error + 'b) \<Rightarrow> error + 'b" where
  "then_do r k = (case r of Inl e \<Rightarrow> Inl e | Inr v \<Rightarrow> k v)"

text \<open>A \<^verbatim>\<open>for\<close> loop over the indices \<open>ms\<close> whose body can throw.\<close>

primrec for_each :: "nat list \<Rightarrow> (nat \<Rightarrow> 's \<Rightarrow> error + 's) \<Rightarrow> 's \<Rightarrow> error + 's" where
  "for_each [] body st = Inr st"
| "for_each (m # ms) body st =
     (case body m st of Inl e \<Rightarrow> Inl e | Inr st' \<Rightarrow> for_each ms body st')"

subsection \<open>Arguments (lines 68--95)\<close>

text \<open>
  The checks in the order of the source. \<^verbatim>\<open>Nc = (size_t) n_polys\<close> sign-extends the
  32-bit \<^verbatim>\<open>int\<close> to 64 bits; \<^verbatim>\<open>Nc < 0\<close> is then a comparison of unsigned values. The result
  is \<open>(Nv, Ns, Nc)\<close>.
\<close>

definition check_arguments ::
  "ndarray \<Rightarrow> ndarray \<Rightarrow> ndarray \<Rightarrow> 32 word \<Rightarrow> error + (nat \<times> nat \<times> nat)" where
  "check_arguments f s weight n_polys =
     (if dimension f \<noteq> 2
      then Inl (InvalidArgument ''Error: input f is not 2-dimensional.'')
      else
        let Nv = shape f ! 0; Ns = shape f ! 1 in
        if dimension s \<noteq> 1
        then Inl (InvalidArgument ''Error: input s is not 1-dimensional.'')
        else if Ns \<noteq> size_nd s
        then Inl (InvalidArgument
               ''Error: 2nd dimension of f does not match the length of s.'')
        else if shape f \<noteq> shape weight
        then Inl (InvalidArgument ''Error: shape of weight does not match shape of f.'')
        else
          let Nc = (scast n_polys :: 64 word) in
          if Nc < 0 \<or> Nc > 11
          then Inl (InvalidArgument ''Error: input n_polys is not in range [0, 11].'')
          else Inr (Nv, Ns, unat Nc))"

subsection \<open>Classification of the poles (lines 119--136 and 328--345)\<close>

text \<open>
  \<open>cindex\<close> holds 0 for a real pole, 1 for the first pole of a complex pair and 2 for the
  second. The loop variable \<open>m\<close> is incremented once by the loop and once more in the body
  when a pair has been found.
\<close>

function classify_loop :: "complex list \<Rightarrow> nat \<Rightarrow> int list \<Rightarrow> error + int list" where
  "classify_loop poles m cindex =
     (if m < length poles then
        (if Im (poles ! m) \<noteq> 0 then
           (if m = 0 \<or> (m > 0 \<and> (cindex ! (m - 1) = 0 \<or> cindex ! (m - 1) = 2)) then
              (if m \<ge> length poles - 1 \<or> cnj (poles ! m) \<noteq> poles ! (m + 1)
               then Inl (InvalidArgument ''Error: complex poles are not conjugate pairs.'')
               else classify_loop poles (m + 1 + 1) (cindex[m := 1, m + 1 := 2]))
            else classify_loop poles (m + 1) cindex)
         else classify_loop poles (m + 1) cindex)
      else Inr cindex)"
  by pat_completeness auto
termination
  by (relation "measure (\<lambda>(poles, m, cindex). length poles - m)") auto

definition classify :: "complex list \<Rightarrow> error + int list" where
  "classify poles = classify_loop poles 0 (replicate (length poles) 0)"

text \<open>
  The pairing of the poles as the specification words it: a pole with zero imaginary part
  stands alone; a pole with nonzero imaginary part that is not the conjugate partner of
  the pole before it must be followed at once by its exact complex conjugate, and the scan
  goes on behind the pair.
\<close>

fun conjugate_paired :: "complex list \<Rightarrow> bool" where
  "conjugate_paired [] = True"
| "conjugate_paired (p # ps) =
     (if Im p = 0 then conjugate_paired ps
      else (case ps of [] \<Rightarrow> False | q # qs \<Rightarrow> q = cnj p \<and> conjugate_paired qs))"

subsection \<open>Basis matrices (lines 139--162 and 349--365)\<close>

text \<open>
  An entry of a basis matrix: a complex number, or the non-finite result of a division by
  zero. A sum or difference with a non-finite operand is non-finite.
\<close>

datatype xcomplex = Finite complex | NonFinite

definition isinf :: "xcomplex \<Rightarrow> bool" where
  "isinf v = (case v of Finite z \<Rightarrow> False | NonFinite \<Rightarrow> True)"

definition quotient :: "complex \<Rightarrow> complex \<Rightarrow> xcomplex" where
  "quotient a z = (if z = 0 then NonFinite else Finite (a / z))"

fun xplus :: "xcomplex \<Rightarrow> xcomplex \<Rightarrow> xcomplex" where
  "xplus (Finite a) (Finite b) = Finite (a + b)"
| "xplus a b = NonFinite"

fun xminus :: "xcomplex \<Rightarrow> xcomplex \<Rightarrow> xcomplex" where
  "xminus (Finite a) (Finite b) = Finite (a - b)"
| "xminus a b = NonFinite"

definition TOLlow :: real where
  "TOLlow = 1 / 10 ^ 18"

definition TOLhigh :: real where
  "TOLhigh = 10 ^ 18"

text \<open>
  The column of pole \<open>p\<close> with classification \<open>c\<close> over the samples \<open>sv\<close>:
  \<^verbatim>\<open>1. / (s - p)\<close>, \<^verbatim>\<open>1. / (s - p) + 1. / (s - std::conj(p))\<close> or
  \<^verbatim>\<open>1i / (s - std::conj(p)) - 1i / (s - p)\<close>.
\<close>

definition pole_column :: "int \<Rightarrow> complex \<Rightarrow> real list \<Rightarrow> error + xcomplex list" where
  "pole_column c p sv =
     (if c = 0 then
        Inr (map (\<lambda>sk. quotient 1 (complex_of_real sk - p)) sv)
      else if c = 1 then
        Inr (map (\<lambda>sk. xplus (quotient 1 (complex_of_real sk - p))
                             (quotient 1 (complex_of_real sk - cnj p))) sv)
      else if c = 2 then
        Inr (map (\<lambda>sk. xminus (quotient \<i> (complex_of_real sk - cnj p))
                              (quotient \<i> (complex_of_real sk - p))) sv)
      else Inl (RuntimeError ''Error: unknown cindex value.''))"

text \<open>The loop over the poles, which both constructions of the basis run (lines 141--152, 350--361).\<close>

definition pole_columns ::
  "int list \<Rightarrow> complex list \<Rightarrow> real list \<Rightarrow> xcomplex mat \<Rightarrow> error + xcomplex mat" where
  "pole_columns cindex poles sv Dk =
     for_each [0..<length poles]
       (\<lambda>m Dk. then_do (pole_column (cindex ! m) (poles ! m) sv)
                  (\<lambda>col. Inr (set_col Dk m col)))
       Dk"

text \<open>\<^verbatim>\<open>xt::filter(Dk, xt::isinf(Dk)) = TOLhigh + 0.0i\<close>\<close>

definition replace_inf :: "xcomplex mat \<Rightarrow> xcomplex mat" where
  "replace_inf Dk =
     map (map (\<lambda>v. if isinf v then Finite (complex_of_real TOLhigh) else v)) Dk"

text \<open>\<^verbatim>\<open>xt::pow(s, m) + 0.0i\<close>\<close>

definition power_column :: "real list \<Rightarrow> nat \<Rightarrow> xcomplex list" where
  "power_column sv m = map (\<lambda>sk. Finite (complex_of_real (sk ^ m))) sv"

text \<open>The basis of pole identification (lines 139--162).\<close>

definition Dk_pole ::
  "int list \<Rightarrow> complex list \<Rightarrow> real list \<Rightarrow> nat \<Rightarrow> error + xcomplex mat" where
  "Dk_pole cindex poles sv Nc =
     (let N = length poles; Ns = length sv in
      then_do (pole_columns cindex poles sv (full Ns (N + max Nc 1) (Finite 0)))
        (\<lambda>Dk.
           let Dk = replace_inf Dk;
               Dk = set_col Dk N (replicate Ns (Finite 1))
           in Inr (fold (\<lambda>m Dk. set_col Dk (N + m) (power_column sv m)) [1..<Nc] Dk)))"

text \<open>The basis of residue identification (lines 349--365).\<close>

definition Dk_residue ::
  "int list \<Rightarrow> complex list \<Rightarrow> real list \<Rightarrow> nat \<Rightarrow> error + xcomplex mat" where
  "Dk_residue cindex poles sv Nc =
     (let N = length poles; Ns = length sv in
      then_do (pole_columns cindex poles sv (full Ns (N + Nc) (Finite 0)))
        (\<lambda>Dk. Inr (fold (\<lambda>m Dk. set_col Dk (N + m) (power_column sv m)) [0..<Nc] Dk)))"

subsection \<open>Library routines\<close>

text \<open>
  The parameters of the model. Each stands for a stretch of the source that assembles a
  real system in floating point and hands it to the linear-algebra library:
  \<^item> \<open>relaxed_lstsq Dk f weight N Nc\<close>: lines 164--229, the solution \<^verbatim>\<open>x\<close> of the relaxed
    system after the rescaling \<^verbatim>\<open>x *= Escale\<close>;
  \<^item> \<open>nonrelaxed_lstsq D Dk f weight N Nc\<close>: lines 252--291, the coefficients of the system
    solved again with \<open>D\<close> fixed;
  \<^item> \<open>eigvals ZER\<close>: line 319;
  \<^item> \<open>residue_lstsq Dk f weight N Nc n\<close>: lines 370--391, the rescaled solution \<^verbatim>\<open>x\<close> for the
    response vector \<open>n\<close>;
  \<^item> \<open>evaluate_fit sv poles residues polys f Nc\<close>: lines 423--440, the fitted signals and
    the RMS error;
  \<^item> \<open>unchecked_set M i j v\<close>: the matrix after the assignment \<^verbatim>\<open>M(i, j) = v\<close> when \<open>(i, j)\<close> is
    outside the declared shape of \<open>M\<close>. The element access of the source is not checked
    and the source does not say where such a write goes: that is the array library's
    index arithmetic. Effects of such a write on anything but \<open>M\<close> are not modelled.
\<close>

record kernels =
  relaxed_lstsq :: "xcomplex mat \<Rightarrow> ndarray \<Rightarrow> ndarray \<Rightarrow> nat \<Rightarrow> nat \<Rightarrow> error + real list"
  nonrelaxed_lstsq ::
    "real \<Rightarrow> xcomplex mat \<Rightarrow> ndarray \<Rightarrow> ndarray \<Rightarrow> nat \<Rightarrow> nat \<Rightarrow> error + real list"
  eigvals :: "real mat \<Rightarrow> error + complex list"
  residue_lstsq ::
    "xcomplex mat \<Rightarrow> ndarray \<Rightarrow> ndarray \<Rightarrow> nat \<Rightarrow> nat \<Rightarrow> nat \<Rightarrow> error + real list"
  evaluate_fit ::
    "real list \<Rightarrow> complex list \<Rightarrow> complex mat \<Rightarrow> real mat \<Rightarrow> ndarray \<Rightarrow> nat \<Rightarrow> real mat \<times> xreal"
  unchecked_set :: "real mat \<Rightarrow> nat \<Rightarrow> nat \<Rightarrow> real \<Rightarrow> real mat"

text \<open>
  A solution of a system with \<open>n\<close> unknowns has \<open>n\<close> entries, and a matrix of order \<open>n\<close> has
  \<open>n\<close> eigenvalues: a routine that returns another number of values has failed.
\<close>

definition of_length :: "nat \<Rightarrow> error + 'a list \<Rightarrow> error + 'a list" where
  "of_length n r =
     then_do r (\<lambda>xs. if length xs = n then Inr xs else Inl LibraryFailure)"

subsection \<open>Coefficients of the scaling function (lines 227--292)\<close>

text \<open>Lines 239--250: the new value of \<open>D\<close>, from the last entry \<open>xl\<close> of \<^verbatim>\<open>x\<close>.\<close>

definition clamp_D :: "real \<Rightarrow> real \<Rightarrow> real" where
  "clamp_D xl D =
     (if xl = 0 then 1
      else if \<bar>xl\<bar> < TOLlow then (if xl > 0 then TOLlow else - TOLlow)
      else if \<bar>xl\<bar> > TOLhigh then (if xl > 0 then TOLhigh else - TOLhigh)
      else D)"

text \<open>
  The block of lines 236--292. It assigns to the variable \<open>D\<close> of the enclosing scope. The
  matrices \<^verbatim>\<open>AA\<close>, \<^verbatim>\<open>bb\<close> and the coefficients \<^verbatim>\<open>C\<close> of line 290 are declared inside the block
  (\<^verbatim>\<open>auto C = ...\<close>): they are gone when the block is left, so what the block hands on is the
  new \<open>D\<close>, unless the solver throws.
\<close>

definition solve_again :: "(real \<Rightarrow> error + real list) \<Rightarrow> real list \<Rightarrow> real \<Rightarrow> error + real" where
  "solve_again resolve x D =
     (let D = clamp_D (x ! (length x - 1)) D in
      then_do (resolve D) (\<lambda>C. Inr D))"

text \<open>
  Lines 230--292: \<open>C\<close> and \<open>D\<close> as they stand when the zeros of the scaling function are
  computed.
\<close>

definition scaling_coefficients ::
  "(real \<Rightarrow> error + real list) \<Rightarrow> real list \<Rightarrow> error + (real list \<times> real)" where
  "scaling_coefficients resolve x =
     (let C = take (length x - 1) x;
          D = x ! (length x - 1)
      in if \<bar>D\<bar> < TOLlow \<or> \<bar>D\<bar> > TOLhigh
         then then_do (solve_again resolve x D) (\<lambda>D. Inr (C, D))
         else Inr (C, D))"

subsection \<open>Zeros of the scaling function (lines 295--319)\<close>

text \<open>
  The element access as the source performs it, on a matrix declared with the shape
  \<open>(r, c)\<close>: inside the declared bounds it updates the element; outside them the matrix is
  what the library makes of the write, and the program runs on.
\<close>

definition in_bounds :: "nat \<times> nat \<Rightarrow> nat \<Rightarrow> nat \<Rightarrow> bool" where
  "in_bounds sh i j \<longleftrightarrow> i < fst sh \<and> j < snd sh"

definition assign :: "kernels \<Rightarrow> nat \<times> nat \<Rightarrow> real mat \<Rightarrow> nat \<Rightarrow> nat \<Rightarrow> real \<Rightarrow> real mat" where
  "assign K sh M i j v =
     (if in_bounds sh i j then M[i := (M ! i)[j := v]] else unchecked_set K M i j v)"

text \<open>
  The body of the loop of lines 297--314, on the pair \<open>(LAMBD, SERB)\<close>; \<open>LAMBD\<close> is declared
  with the shape \<open>(N, N)\<close> and \<open>SERB\<close> with the shape \<open>(N, 1)\<close>.
\<close>

definition zeros_step ::
  "kernels \<Rightarrow> int list \<Rightarrow> complex list \<Rightarrow> nat \<Rightarrow> real mat \<times> real mat \<Rightarrow> real mat \<times> real mat" where
  "zeros_step K cindex poles m LS =
     (case LS of (LAMBD, SERB) \<Rightarrow>
        let N = length poles in
        if cindex ! m = 0 then
          (assign K (N, N) LAMBD m m (Re (poles ! m)), SERB)
        else if cindex ! m = 1 then
          let x = Re (poles ! m); y = Im (poles ! m);
              LAMBD = assign K (N, N) LAMBD m m x;
              LAMBD = assign K (N, N) LAMBD (m + 1) (m + 1) x;
              LAMBD = assign K (N, N) LAMBD (m + 1) m (- y);
              LAMBD = assign K (N, N) LAMBD m (m + 1) y;
              SERB = assign K (N, 1) SERB m 1 2;
              SERB = assign K (N, 1) SERB (m + 1) 1 0
          in (LAMBD, SERB)
        else (LAMBD, SERB))"

text \<open>Lines 295--314: \<^verbatim>\<open>LAMBD({N, N}, 0.0)\<close>, \<^verbatim>\<open>SERB({N, (size_t)1}, 1.0)\<close> and the loop.\<close>

definition zeros_matrices :: "kernels \<Rightarrow> int list \<Rightarrow> complex list \<Rightarrow> real mat \<times> real mat" where
  "zeros_matrices K cindex poles =
     (let N = length poles in
      fold (zeros_step K cindex poles) [0..<N] (full N N 0, full N 1 1))"

text \<open>
  \<^verbatim>\<open>LAMBD - xt::linalg::dot(SERB, C) / D\<close>, with \<open>C\<close> reshaped to one row: entry \<open>(i, j)\<close> of
  the product is \<^verbatim>\<open>SERB(i, 0) * C(0, j)\<close>.
\<close>

definition ZER_matrix :: "real mat \<Rightarrow> real mat \<Rightarrow> real list \<Rightarrow> real \<Rightarrow> real mat" where
  "ZER_matrix LAMBD SERB C D =
     map (\<lambda>i. map (\<lambda>j. LAMBD ! i ! j - (SERB ! i ! 0 * C ! j) / D) [0..<length LAMBD])
       [0..<length LAMBD]"

subsection \<open>Pole identification (lines 116--320)\<close>

text \<open>The matrix whose eigenvalues are the new poles (lines 119--318).\<close>

definition pole_update_matrix ::
  "kernels \<Rightarrow> ndarray \<Rightarrow> ndarray \<Rightarrow> real list \<Rightarrow> complex list \<Rightarrow> nat \<Rightarrow> error + real mat" where
  "pole_update_matrix K f weight sv poles Nc =
     (let N = length poles in
      then_do (classify poles) (\<lambda>cindex.
      then_do (Dk_pole cindex poles sv Nc) (\<lambda>Dk.
      then_do (of_length (N + 1) (relaxed_lstsq K Dk f weight N Nc)) (\<lambda>x.
      then_do (scaling_coefficients
                 (\<lambda>D. of_length N (nonrelaxed_lstsq K D Dk f weight N Nc)) x) (\<lambda>(C, D).
      case zeros_matrices K cindex poles of (LAMBD, SERB) \<Rightarrow>
        Inr (ZER_matrix LAMBD SERB C D))))))"

text \<open>
  Line 319 assigns the eigenvalues to the parameter \<^verbatim>\<open>poles\<close>; in the model they are the result
  of the stage, which \<open>vectfit\<close> hands to residue identification and returns.
\<close>

definition pole_identification ::
  "kernels \<Rightarrow> ndarray \<Rightarrow> ndarray \<Rightarrow> real list \<Rightarrow> complex list \<Rightarrow> nat \<Rightarrow> error + complex list" where
  "pole_identification K f weight sv poles Nc =
     then_do (pole_update_matrix K f weight sv poles Nc)
       (\<lambda>ZER. of_length (length poles) (eigvals K ZER))"

subsection \<open>Residue identification (lines 325--441)\<close>

text \<open>The result of \<^verbatim>\<open>vectfit\<close>: residues, polynomial coefficients, poles, RMS error, fit.\<close>

record fitting =
  out_residues :: "complex mat"
  out_polys :: "real mat"
  out_poles :: "complex list"
  out_rmserr :: xreal
  out_fit :: "real mat"

text \<open>
  Lines 367--399: for each response vector the first \<open>N\<close> entries of the solution go to
  row \<open>n\<close> of \<^verbatim>\<open>Cr\<close> and, when \<open>Nc > 0\<close>, the next \<open>Nc\<close> entries to row \<open>n\<close> of \<^verbatim>\<open>polys\<close>.
\<close>

definition solve_residues ::
  "kernels \<Rightarrow> xcomplex mat \<Rightarrow> ndarray \<Rightarrow> ndarray \<Rightarrow> nat \<Rightarrow> nat \<Rightarrow> nat \<Rightarrow> real mat
     \<Rightarrow> error + (real mat \<times> real mat)" where
  "solve_residues K Dk f weight Nv N Nc polys =
     for_each [0..<Nv]
       (\<lambda>n CP. case CP of (Cr, polys) \<Rightarrow>
          then_do (of_length (N + Nc) (residue_lstsq K Dk f weight N Nc n))
            (\<lambda>x. Inr (set_row Cr n (take N x),
                       if Nc > 0 then set_row polys n (take Nc (drop N x)) else polys)))
       (full Nv N 0, polys)"

text \<open>The body of the loop of lines 402--421.\<close>

definition residues_step ::
  "int list \<Rightarrow> real mat \<Rightarrow> nat \<Rightarrow> nat \<Rightarrow> complex mat \<Rightarrow> error + complex mat" where
  "residues_step cindex Cr Nv m residues =
     (if cindex ! m = 0 then
        for_each [0..<Nv]
          (\<lambda>n residues. mat_set residues n m (complex_of_real (Cr ! n ! m)))
          residues
      else if cindex ! m = 1 then
        for_each [0..<Nv]
          (\<lambda>n residues.
             let r1 = Cr ! n ! m; r2 = Cr ! n ! (m + 1) in
             then_do (mat_set residues n m (complex_of_real r1 + \<i> * complex_of_real r2))
               (\<lambda>residues.
                  mat_set residues n (m + 1) (complex_of_real r1 - \<i> * complex_of_real r2)))
          residues
      else Inr residues)"

definition complex_residues ::
  "int list \<Rightarrow> real mat \<Rightarrow> nat \<Rightarrow> nat \<Rightarrow> complex mat \<Rightarrow> error + complex mat" where
  "complex_residues cindex Cr N Nv residues =
     for_each [0..<N] (residues_step cindex Cr Nv) residues"

definition residue_identification ::
  "kernels \<Rightarrow> ndarray \<Rightarrow> ndarray \<Rightarrow> real list \<Rightarrow> complex list \<Rightarrow> nat \<Rightarrow> nat
     \<Rightarrow> complex mat \<Rightarrow> real mat \<Rightarrow> error + fitting" where
  "residue_identification K f weight sv poles Nv Nc residues polys =
     (let N = length poles in
      then_do (classify poles) (\<lambda>cindex.
      then_do (Dk_residue cindex poles sv Nc) (\<lambda>Dk.
      then_do (solve_residues K Dk f weight Nv N Nc polys) (\<lambda>(Cr, polys).
      then_do (complex_residues cindex Cr N Nv residues) (\<lambda>residues.
      case evaluate_fit K sv poles residues polys f Nc of (fit, rmserr) \<Rightarrow>
        Inr \<lparr>out_residues = residues, out_polys = polys, out_poles = poles,
             out_rmserr = rmserr, out_fit = fit\<rparr>)))))"

subsection \<open>The function \<^verbatim>\<open>vectfit\<close> (lines 62--444)\<close>

definition vectfit ::
  "kernels \<Rightarrow> ndarray \<Rightarrow> ndarray \<Rightarrow> complex list \<Rightarrow> ndarray \<Rightarrow> 32 word \<Rightarrow> bool \<Rightarrow> bool
     \<Rightarrow> error + fitting" where
  "vectfit K f s poles weight n_polys skip_pole skip_res =
     then_do (check_arguments f s weight n_polys) (\<lambda>(Nv, Ns, Nc).
       let N = length poles;
           residues = full Nv N 0;
           polys = full Nv Nc 0;
           fit = full Nv Ns 0;
           rmserr = Number 0;
           sv = map (at1 s) [0..<Ns]
       in
       if N = 0 \<and> Nc = 0 then
         Inr \<lparr>out_residues = residues, out_polys = polys, out_poles = poles,
              out_rmserr = xdivide (norm_nd f) (sqrt (real (Nv * Ns))), out_fit = fit\<rparr>
       else
         then_do (if \<not> skip_pole \<and> N > 0
                  then pole_identification K f weight sv poles Nc
                  else Inr poles) (\<lambda>poles.
           if \<not> skip_res
           then residue_identification K f weight sv poles Nv Nc residues polys
           else Inr \<lparr>out_residues = residues, out_polys = polys, out_poles = poles,
                     out_rmserr = rmserr, out_fit = fit\<rparr>))"

subsection \<open>A library with fixed answers\<close>

text \<open>
  To evaluate the model on concrete inputs the library routines must be given. In
  \<open>fixed_kernels x C eig r\<close> the relaxed solve returns \<open>x\<close>, the solve without relaxation \<open>C\<close>,
  the eigenvalue routine \<open>eig ZER\<close>, every residue solve \<open>r\<close>, and the evaluation of the fit
  an all-zero fit with error 0; a write outside the declared shape of a matrix leaves the
  matrix as it is.
\<close>

definition fixed_kernels ::
  "real list \<Rightarrow> real list \<Rightarrow> (real mat \<Rightarrow> complex list) \<Rightarrow> real list \<Rightarrow> kernels" where
  "fixed_kernels x C eig r =
     \<lparr>relaxed_lstsq = (\<lambda>Dk f weight N Nc. Inr x),
      nonrelaxed_lstsq = (\<lambda>D Dk f weight N Nc. Inr C),
      eigvals = (\<lambda>ZER. Inr (eig ZER)),
      residue_lstsq = (\<lambda>Dk f weight N Nc n. Inr r),
      evaluate_fit =
        (\<lambda>sv poles residues polys f Nc. (full (shape f ! 0) (shape f ! 1) 0, Number 0)),
      unchecked_set = (\<lambda>M i j v. M)\<rparr>"

text \<open>The eigenvalues of a triangular matrix are the entries of its diagonal.\<close>

definition diagonal :: "real mat \<Rightarrow> complex list" where
  "diagonal M = map (\<lambda>i. complex_of_real (M ! i ! i)) [0..<length M]"

text \<open>
  One thing a library can do with a write \<^verbatim>\<open>M(i, j) = v\<close> whose column index is outside the
  declared shape: put \<open>v\<close> into column 0 of row \<open>i\<close>.
\<close>

definition first_column_write :: "real mat \<Rightarrow> nat \<Rightarrow> nat \<Rightarrow> real \<Rightarrow> real mat" where
  "first_column_write M i j v = M[i := (M ! i)[0 := v]]"

subsection \<open>Auxiliary notions for the statements\<close>

text \<open>The messages of the five argument checks.\<close>

definition argument_messages :: "string set" where
  "argument_messages =
     {''Error: input f is not 2-dimensional.'',
      ''Error: input s is not 1-dimensional.'',
      ''Error: 2nd dimension of f does not match the length of s.'',
      ''Error: shape of weight does not match shape of f.'',
      ''Error: input n_polys is not in range [0, 11].''}"

text \<open>
  What the classification loop has established for the poles before index \<open>m\<close>: a real
  pole has tag 0; a pole with tag 1 is complex and is followed, before \<open>m\<close>, by its conjugate
  with tag 2; a tag 2 follows a tag 1.
\<close>

definition classified_upto :: "complex list \<Rightarrow> nat \<Rightarrow> int list \<Rightarrow> bool" where
  "classified_upto poles m c \<longleftrightarrow>
     (\<forall>k<m. (c ! k = 0 \<and> Im (poles ! k) = 0)
          \<or> (c ! k = 1 \<and> Suc k < m \<and> c ! Suc k = 2 \<and> Im (poles ! k) \<noteq> 0
               \<and> poles ! Suc k = cnj (poles ! k))
          \<or> (c ! k = 2 \<and> 0 < k \<and> c ! (k - 1) = 1))"

text \<open>Inputs of the examples: one response vector \<open>[1, 2, 3]\<close> sampled at \<open>0, 1, 2\<close>.\<close>

definition f123 :: ndarray where
  "f123 = \<lparr>shape = [1, 3], elems = [1, 2, 3]\<rparr>"

definition s012 :: ndarray where
  "s012 = \<lparr>shape = [3], elems = [0, 1, 2]\<rparr>"

definition w111 :: ndarray where
  "w111 = \<lparr>shape = [1, 3], elems = [1, 1, 1]\<rparr>"

text \<open>The message of the classification loop.\<close>

definition pairing_message :: string where
  "pairing_message = ''Error: complex poles are not conjugate pairs.''"

text \<open>
  A library every solver of which throws: no call of a solver can succeed. A write outside
  the declared shape of a matrix leaves the matrix as it is.
\<close>

definition failing_kernels :: kernels where
  "failing_kernels =
     \<lparr>relaxed_lstsq = (\<lambda>Dk f weight N Nc. Inl LibraryFailure),
      nonrelaxed_lstsq = (\<lambda>D Dk f weight N Nc. Inl LibraryFailure),
      eigvals = (\<lambda>ZER. Inl LibraryFailure),
      residue_lstsq = (\<lambda>Dk f weight N Nc n. Inl LibraryFailure),
      evaluate_fit = (\<lambda>sv poles residues polys f Nc. ([], Number 0)),
      unchecked_set = (\<lambda>M i j v. M)\<rparr>"

text \<open>A matrix with \<open>r\<close> rows of \<open>c\<close> entries each.\<close>

definition has_shape :: "'a mat \<Rightarrow> nat \<Rightarrow> nat \<Rightarrow> bool" where
  "has_shape M r c \<longleftrightarrow> length M = r \<and> (\<forall>k<r. length (M ! k) = c)"

text \<open>
  The two residues of a conjugate pair at the poles \<open>m\<close> and \<open>m + 1\<close>, from the real
  coefficients \<open>r1 = Cr(n, m)\<close> and \<open>r2 = Cr(n, m + 1)\<close>: \<open>r1 + i r2\<close> and \<open>r1 - i r2\<close>.
\<close>

definition primary :: "real mat \<Rightarrow> nat \<Rightarrow> nat \<Rightarrow> complex" where
  "primary Cr n m = complex_of_real (Cr ! n ! m) + \<i> * complex_of_real (Cr ! n ! (m + 1))"

definition secondary :: "real mat \<Rightarrow> nat \<Rightarrow> nat \<Rightarrow> complex" where
  "secondary Cr n m = complex_of_real (Cr ! n ! m) - \<i> * complex_of_real (Cr ! n ! (m + 1))"

text \<open>What the loop of lines 402--421 has established for the poles before index \<open>k\<close>.\<close>

definition recombined :: "int list \<Rightarrow> real mat \<Rightarrow> nat \<Rightarrow> nat \<Rightarrow> complex mat \<Rightarrow> bool" where
  "recombined cindex Cr Nv k R \<longleftrightarrow>
     (\<forall>m<k. \<forall>n<Nv.
        (cindex ! m = 0 \<longrightarrow> R ! n ! m = complex_of_real (Cr ! n ! m)) \<and>
        (cindex ! m = 1 \<longrightarrow> R ! n ! m = primary Cr n m \<and> R ! n ! (m + 1) = secondary Cr n m))"

text \<open>One response vector \<open>[1, 1]\<close> sampled at \<open>1, 2\<close>; it also serves as the weight.\<close>

definition f11 :: ndarray where
  "f11 = \<lparr>shape = [1, 2], elems = [1, 1]\<rparr>"

definition s12 :: ndarray where
  "s12 = \<lparr>shape = [2], elems = [1, 2]\<rparr>"

text \<open>
  A library whose residue solve throws exactly when it is handed the basis matrix \<open>M\<close>, and
  whose other routines return ones, the diagonal and zeros; a write outside the declared
  shape of a matrix leaves the matrix as it is.
\<close>

definition probing_kernels :: "xcomplex mat \<Rightarrow> kernels" where
  "probing_kernels M =
     \<lparr>relaxed_lstsq = (\<lambda>Dk f weight N Nc. Inr (replicate (N + 1) 1)),
      nonrelaxed_lstsq = (\<lambda>D Dk f weight N Nc. Inr (replicate N 1)),
      eigvals = (\<lambda>ZER. Inr (diagonal ZER)),
      residue_lstsq = (\<lambda>Dk f weight N Nc n.
         if Dk = M then Inl LibraryFailure else Inr (replicate (N + Nc) 0)),
      evaluate_fit =
        (\<lambda>sv poles residues polys f Nc. (full (shape f ! 0) (shape f ! 1) 0, Number 0)),
      unchecked_set = (\<lambda>M i j v. M)\<rparr>"

text \<open>No entry of the matrix is non-finite.\<close>

definition all_finite :: "xcomplex mat \<Rightarrow> bool" where
  "all_finite M \<longleftrightarrow> (\<forall>row \<in> set M. \<forall>v \<in> set row. v \<noteq> NonFinite)"

section \<open>Properties\<close>

subsection \<open>The cast of \<^verbatim>\<open>n_polys\<close>\<close>

lemma uint_scast_n_polys:
  "uint (scast (n :: 32 word) :: 64 word) = sint n mod 2 ^ 64"
proof -
  have "(scast n :: 64 word) = word_of_int (sint n)" by (rule scast_eq)
  then have "uint (scast n :: 64 word) = uint (word_of_int (sint n) :: 64 word)"
    by (rule arg_cong)
  also have "\<dots> = sint n mod 2 ^ 64"
    by (simp only: uint_word_of_int len_bit0 len_num1, simp)
  finally show ?thesis .
qed

lemma sint_32_range: "- (2 ^ 31) \<le> sint (n :: 32 word) \<and> sint n < 2 ^ 31"
  using sint_ge [of n] sint_lt [of n] by simp

text \<open>A negative \<^verbatim>\<open>n_polys\<close> becomes a value of at least \<open>2^64 - 2^31\<close>: the check refuses it.\<close>

lemma Nc_out_of_range:
  "((scast (n :: 32 word) :: 64 word) < 0 \<or> (scast n :: 64 word) > 11)
     = (sint n < 0 \<or> 11 < sint n)"
proof -
  have r: "- (2 ^ 31) \<le> sint n \<and> sint n < 2 ^ 31" by (rule sint_32_range)
  have "((scast n :: 64 word) > 11) = (11 < uint (scast n :: 64 word))"
    by (simp add: word_less_def)
  also have "\<dots> = (11 < sint n mod 2 ^ 64)"
    by (simp only: uint_scast_n_polys)
  also have "\<dots> = (sint n < 0 \<or> 11 < sint n)"
  proof (cases "sint n < 0")
    case True
    have "(sint n + 2 ^ 64) mod 2 ^ 64 = sint n + 2 ^ 64"
      using r True by (intro mod_pos_pos_trivial) auto
    then have "sint n mod 2 ^ 64 = sint n + 2 ^ 64" by simp
    then show ?thesis using True r by simp
  next
    case False
    then have "sint n mod 2 ^ 64 = sint n" using r by simp
    then show ?thesis using False by auto
  qed
  finally show ?thesis by simp
qed

lemma Nc_in_range:
  "0 \<le> sint (n :: 32 word) \<Longrightarrow> unat (scast n :: 64 word) = nat (sint n)"
proof -
  assume a: "0 \<le> sint n"
  have r: "sint n < 2 ^ 31" using sint_32_range by blast
  have "sint n mod 2 ^ 64 = sint n" using a r by simp
  then show ?thesis by (simp only: unat_eq_nat_uint uint_scast_n_polys)
qed

subsection \<open>The argument checks\<close>

lemma check_arguments_accepts:
  assumes "shape f = [Nv, Ns]" "shape s = [Ns]" "shape weight = [Nv, Ns]"
    and "0 \<le> sint n_polys" "sint n_polys \<le> 11"
  shows "check_arguments f s weight n_polys = Inr (Nv, Ns, nat (sint n_polys))"
proof -
  have "\<not> ((scast n_polys :: 64 word) < 0 \<or> (scast n_polys :: 64 word) > 11)"
    using assms(4,5) by (simp only: Nc_out_of_range) simp
  moreover have "unat (scast n_polys :: 64 word) = nat (sint n_polys)"
    using assms(4) by (rule Nc_in_range)
  ultimately show ?thesis
    using assms(1,2,3)
    by (simp add: check_arguments_def dimension_def size_nd_def Let_def)
qed

lemma check_arguments_rejects:
  assumes "dimension f \<noteq> 2 \<or> dimension s \<noteq> 1 \<or> size_nd s \<noteq> shape f ! 1
           \<or> shape weight \<noteq> shape f \<or> sint n_polys < 0 \<or> 11 < sint n_polys"
  shows "\<exists>msg \<in> argument_messages.
           check_arguments f s weight n_polys = Inl (InvalidArgument msg)"
proof -
  have n: "((scast n_polys :: 64 word) < 0 \<or> (scast n_polys :: 64 word) > 11)
            = (sint n_polys < 0 \<or> 11 < sint n_polys)"
    by (rule Nc_out_of_range)
  show ?thesis
    using assms unfolding check_arguments_def Let_def argument_messages_def n
    by (auto split: if_splits)
qed

lemma vectfit_check_error:
  "check_arguments f s weight n_polys = Inl e \<Longrightarrow>
   vectfit K f s poles weight n_polys skip_pole skip_res = Inl e"
  by (simp add: vectfit_def then_do_def)

text \<open>
  C8. If \<open>f\<close> is not of rank 2, or \<open>s\<close> not of rank 1, or the length of \<open>s\<close> is not the second
  dimension of \<open>f\<close>, or the shape of \<open>weight\<close> is not the shape of \<open>f\<close>, or \<^verbatim>\<open>n_polys\<close> is
  negative or greater than 11, then the call fails with an invalid-argument error whose
  message is one of the five messages of the checks. The error is the same for every
  library, every pole sequence and both skip flags: it is raised before anything is
  computed, and no output is produced.
\<close>

theorem vectfit_rejects_bad_arguments:
  assumes "dimension f \<noteq> 2 \<or> dimension s \<noteq> 1 \<or> size_nd s \<noteq> shape f ! 1
           \<or> shape weight \<noteq> shape f \<or> sint n_polys < 0 \<or> 11 < sint n_polys"
  shows "\<exists>msg \<in> argument_messages. \<forall>K poles skip_pole skip_res.
           vectfit K f s poles weight n_polys skip_pole skip_res
             = Inl (InvalidArgument msg)"
proof -
  obtain msg where "msg \<in> argument_messages"
      "check_arguments f s weight n_polys = Inl (InvalidArgument msg)"
    using check_arguments_rejects [OF assms] by blast
  then show ?thesis
    by (blast intro: vectfit_check_error)
qed

text \<open>The example: \<^verbatim>\<open>n_polys = -1\<close> with arrays of matching shapes.\<close>

theorem vectfit_rejects_bad_arguments_witness:
  "sint (- 1 :: 32 word) < 0 \<and>
   (\<exists>msg \<in> argument_messages. \<forall>K poles skip_pole skip_res.
      vectfit K f123 s012 poles w111 (- 1) skip_pole skip_res = Inl (InvalidArgument msg))"
proof -
  have h: "sint (- 1 :: 32 word) < 0" by simp
  show ?thesis
    using h vectfit_rejects_bad_arguments [of f123 s012 w111 "- 1"] by blast
qed

subsection \<open>The classification loop\<close>

declare classify_loop.simps [simp del]

lemma classify_loop_length:
  "classify_loop poles m cindex = Inr c \<Longrightarrow> length c = length cindex"
proof (induction poles m cindex rule: classify_loop.induct)
  case (1 poles m cindex)
  show ?case
    using "1.prems" "1.IH"
    by (subst (asm) classify_loop.simps) (auto split: if_splits)
qed

lemma classify_loop_error:
  "classify_loop poles m cindex = Inl e \<Longrightarrow>
     e = InvalidArgument ''Error: complex poles are not conjugate pairs.''"
proof (induction poles m cindex rule: classify_loop.induct)
  case (1 poles m cindex)
  show ?case
    using "1.prems" "1.IH"
    by (subst (asm) classify_loop.simps) (auto split: if_splits)
qed

lemma classify_loop_classified:
  "classify_loop poles m cindex = Inr c \<Longrightarrow> length cindex = length poles \<Longrightarrow>
   m \<le> length poles \<Longrightarrow> classified_upto poles m cindex \<Longrightarrow>
   (\<forall>k. m \<le> k \<and> k < length poles \<longrightarrow> cindex ! k = 0) \<Longrightarrow>
   (m = 0 \<or> cindex ! (m - 1) = 0 \<or> cindex ! (m - 1) = 2) \<Longrightarrow>
   classified_upto poles (length poles) c"
proof (induction poles m cindex rule: classify_loop.induct)
  case (1 poles m cindex)
  show ?case
  proof (cases "m < length poles")
    case False
    with "1.prems" show ?thesis
      by (subst (asm) classify_loop.simps) auto
  next
    case m: True
    show ?thesis
    proof (cases "Im (poles ! m) = 0")
      case True
      have step: "classify_loop poles (m + 1) cindex = Inr c"
        using "1.prems"(1) m True by (subst (asm) classify_loop.simps) simp
      have c0: "cindex ! m = 0" using "1.prems"(5) m by simp
      have up: "classified_upto poles (m + 1) cindex"
        using "1.prems"(4) True c0 unfolding classified_upto_def
        by (auto simp: less_Suc_eq)
      show ?thesis
        using "1.IH"(3)[OF m _ step "1.prems"(2) _ up] True m "1.prems"(5) c0
        by auto
    next
      case False
      have cond: "m = 0 \<or> (m > 0 \<and> (cindex ! (m - 1) = 0 \<or> cindex ! (m - 1) = 2))"
        using "1.prems"(6) by auto
      have ok: "\<not> (m \<ge> length poles - 1 \<or> cnj (poles ! m) \<noteq> poles ! (m + 1))"
        using "1.prems"(1) m False cond by (subst (asm) classify_loop.simps) (auto split: if_splits)
      have step: "classify_loop poles (m + 1 + 1) (cindex[m := 1, m + 1 := 2]) = Inr c"
        using "1.prems"(1) m False cond ok by (subst (asm) classify_loop.simps) (simp split: if_splits)
      have m2: "m + 1 < length poles" using ok by auto
      have up: "classified_upto poles (m + 1 + 1) (cindex[m := 1, m + 1 := 2])"
        unfolding classified_upto_def
      proof (intro allI impI)
        fix k assume k: "k < m + 1 + 1"
        consider "k < m" | "k = m" | "k = m + 1" using k by linarith
        then show "((cindex[m := 1, m + 1 := 2]) ! k = 0 \<and> Im (poles ! k) = 0)
          \<or> ((cindex[m := 1, m + 1 := 2]) ! k = 1 \<and> Suc k < m + 1 + 1 \<and> (cindex[m := 1, m + 1 := 2]) ! Suc k = 2 \<and> Im (poles ! k) \<noteq> 0
               \<and> poles ! Suc k = cnj (poles ! k))
          \<or> ((cindex[m := 1, m + 1 := 2]) ! k = 2 \<and> 0 < k \<and> (cindex[m := 1, m + 1 := 2]) ! (k - 1) = 1)"
        proof cases
          case 1
          have old: "(cindex ! k = 0 \<and> Im (poles ! k) = 0)
             \<or> (cindex ! k = 1 \<and> Suc k < m \<and> cindex ! Suc k = 2 \<and> Im (poles ! k) \<noteq> 0
               \<and> poles ! Suc k = cnj (poles ! k))
             \<or> (cindex ! k = 2 \<and> 0 < k \<and> cindex ! (k - 1) = 1)"
            using "1.prems"(4) 1 unfolding classified_upto_def by blast
          from old 1 show ?thesis by auto
        next
          case 2
          then show ?thesis using False ok m2 "1.prems"(2) by auto
        next
          case 3
          then show ?thesis using m2 "1.prems"(2) by auto
        qed
      qed
      show ?thesis
        using "1.IH"(1)[OF m False cond ok step _ _ up] m2 "1.prems"(2,5)
        by auto
    qed
  qed
qed

text \<open>
  The loop accepts exactly the sequences that are paired in the sense of the
  specification, when it starts at an index whose predecessor is not the first pole of a
  pair and the tags from there on are still 0.
\<close>

lemma classify_loop_paired:
  "length cindex = length poles \<Longrightarrow> m \<le> length poles \<Longrightarrow>
   (\<forall>k. m \<le> k \<and> k < length poles \<longrightarrow> cindex ! k = 0) \<Longrightarrow>
   (m = 0 \<or> cindex ! (m - 1) = 0 \<or> cindex ! (m - 1) = 2) \<Longrightarrow>
   (\<exists>c. classify_loop poles m cindex = Inr c) = conjugate_paired (drop m poles)"
proof (induction poles m cindex rule: classify_loop.induct)
  case (1 poles m cindex)
  show ?case
  proof (cases "m < length poles")
    case False
    then show ?thesis
      by (subst classify_loop.simps) simp
  next
    case m: True
    have dm: "drop m poles = poles ! m # drop (Suc m) poles"
      using m by (simp add: Cons_nth_drop_Suc)
    show ?thesis
    proof (cases "Im (poles ! m) = 0")
      case True
      have c0: "cindex ! m = 0" using "1.prems"(3) m by simp
      have "(\<exists>c. classify_loop poles (m + 1) cindex = Inr c)
              = conjugate_paired (drop (m + 1) poles)"
        using "1.IH"(3)[OF m _ "1.prems"(1)] True m "1.prems"(3) c0 by auto
      then show ?thesis
        using True m dm by (subst classify_loop.simps) simp
    next
      case False
      have cond: "m = 0 \<or> (m > 0 \<and> (cindex ! (m - 1) = 0 \<or> cindex ! (m - 1) = 2))"
        using "1.prems"(4) by auto
      show ?thesis
      proof (cases "m \<ge> length poles - 1 \<or> cnj (poles ! m) \<noteq> poles ! (m + 1)")
        case bad: True
        have "\<not> conjugate_paired (drop m poles)"
        proof (cases "m \<ge> length poles - 1")
          case True
          then have "drop (Suc m) poles = []" using m by simp
          then show ?thesis using dm False by simp
        next
          case F: False
          then have "drop (Suc m) poles = poles ! (m + 1) # drop (Suc (Suc m)) poles"
            by (simp add: Cons_nth_drop_Suc)
          moreover have "poles ! (m + 1) \<noteq> cnj (poles ! m)" using bad F by auto
          ultimately show ?thesis using dm False by simp
        qed
        moreover have "classify_loop poles m cindex =
            Inl (InvalidArgument ''Error: complex poles are not conjugate pairs.'')"
          using m False cond bad by (subst classify_loop.simps) auto
        ultimately show ?thesis by simp
      next
        case ok: False
        have m2: "m + 1 < length poles" using ok by auto
        have d2: "drop (Suc m) poles = poles ! (m + 1) # drop (m + 1 + 1) poles"
          using m2 by (simp add: Cons_nth_drop_Suc)
        have "(\<exists>c. classify_loop poles (m + 1 + 1) (cindex[m := 1, m + 1 := 2]) = Inr c)
                = conjugate_paired (drop (m + 1 + 1) poles)"
          using "1.IH"(1)[OF m False cond ok] m2 "1.prems"(1,3) by auto
        moreover have "classify_loop poles m cindex =
            classify_loop poles (m + 1 + 1) (cindex[m := 1, m + 1 := 2])"
          using m False cond ok by (subst classify_loop.simps) auto
        moreover have "conjugate_paired (drop m poles) = conjugate_paired (drop (m + 1 + 1) poles)"
          using dm d2 False ok by auto
        ultimately show ?thesis by simp
      qed
    qed
  qed
qed

lemma classify_paired: "(\<exists>c. classify poles = Inr c) = conjugate_paired poles"
  using classify_loop_paired [of "replicate (length poles) 0" poles 0]
  by (simp add: classify_def)

subsection \<open>The stages and the function after its checks\<close>

lemma classify_unpaired:
  assumes "\<not> conjugate_paired poles"
  shows "classify poles = Inl (InvalidArgument pairing_message)"
proof (cases "classify poles")
  case (Inl e)
  then show ?thesis
    using classify_loop_error [of poles 0 "replicate (length poles) 0" e]
    by (simp add: classify_def pairing_message_def)
next
  case (Inr c)
  then show ?thesis using assms classify_paired [of poles] by auto
qed

lemma classify_classified:
  assumes "classify poles = Inr c"
  shows "length c = length poles \<and> classified_upto poles (length poles) c"
proof -
  have l: "length c = length poles"
    using assms classify_loop_length [of poles 0 "replicate (length poles) 0" c]
    by (simp add: classify_def)
  have "classified_upto poles (length poles) c"
    using assms
    by (intro classify_loop_classified [of poles 0 "replicate (length poles) 0" c])
       (simp_all add: classify_def classified_upto_def)
  with l show ?thesis by simp
qed

lemma pole_identification_unpaired:
  "\<not> conjugate_paired poles \<Longrightarrow>
   pole_identification K f weight sv poles Nc = Inl (InvalidArgument pairing_message)"
  by (simp add: pole_identification_def pole_update_matrix_def then_do_def
      classify_unpaired Let_def)

lemma residue_identification_unpaired:
  "\<not> conjugate_paired poles \<Longrightarrow>
   residue_identification K f weight sv poles Nv Nc residues polys
     = Inl (InvalidArgument pairing_message)"
  by (simp add: residue_identification_def then_do_def classify_unpaired Let_def)

lemma of_length_Inr: "of_length n r = Inr xs \<Longrightarrow> length xs = n"
  by (auto simp: of_length_def then_do_def split: sum.splits if_splits)

lemma pole_identification_length:
  "pole_identification K f weight sv poles Nc = Inr poles' \<Longrightarrow> length poles' = length poles"
  by (auto simp: pole_identification_def then_do_def split: sum.splits dest: of_length_Inr)

lemma residue_identification_poles:
  "residue_identification K f weight sv poles Nv Nc residues polys = Inr out \<Longrightarrow>
   out_poles out = poles"
  by (auto simp: residue_identification_def then_do_def Let_def split: sum.splits prod.splits)

text \<open>The function after its checks have passed.\<close>

lemma vectfit_checked:
  assumes "check_arguments f s weight n_polys = Inr (Nv, Ns, Nc)"
  shows "vectfit K f s poles weight n_polys skip_pole skip_res =
     (if poles = [] \<and> Nc = 0 then
         Inr \<lparr>out_residues = full Nv (length poles) 0, out_polys = full Nv Nc 0, out_poles = poles,
              out_rmserr = xdivide (norm_nd f) (sqrt (real (Nv * Ns))), out_fit = full Nv Ns 0\<rparr>
       else
         then_do (if \<not> skip_pole \<and> poles \<noteq> []
                  then pole_identification K f weight (map (at1 s) [0..<Ns]) poles Nc
                  else Inr poles) (\<lambda>poles'.
           if \<not> skip_res
           then residue_identification K f weight (map (at1 s) [0..<Ns]) poles' Nv Nc
                  (full Nv (length poles) 0) (full Nv Nc 0)
           else Inr \<lparr>out_residues = full Nv (length poles) 0, out_polys = full Nv Nc 0,
                     out_poles = poles', out_rmserr = Number 0, out_fit = full Nv Ns 0\<rparr>))"
  using assms by (simp add: vectfit_def then_do_def Let_def)

text \<open>The definitions that evaluate the model on a concrete input.\<close>

lemmas model_defs =
  vectfit_def check_arguments_def dimension_def size_nd_def at1_def norm_nd_def
  full_def set_col_def set_row_def mat_set_def then_do_def
  classify_def classify_loop.simps
  isinf_def quotient_def pole_column_def pole_columns_def replace_inf_def power_column_def
  Dk_pole_def Dk_residue_def of_length_def clamp_D_def solve_again_def
  scaling_coefficients_def zeros_step_def zeros_matrices_def ZER_matrix_def
  pole_update_matrix_def pole_identification_def solve_residues_def residues_step_def
  complex_residues_def residue_identification_def fixed_kernels_def failing_kernels_def
  diagonal_def TOLlow_def TOLhigh_def f123_def s012_def w111_def Let_def
  xdivide_def in_bounds_def assign_def first_column_write_def
  upt_conv_Cons numeral_3_eq_3

subsection \<open>The zero model\<close>

lemma xdivide_sqrt_size:
  "0 < Nv * Ns \<Longrightarrow>
   xdivide a (sqrt (real (Nv * Ns))) = Number (a / sqrt (real (Nv * Ns)))"
  by (simp add: xdivide_def)

text \<open>
  C4. For arrays of matching shapes (\<open>f\<close> and \<open>weight\<close> of shape \<open>Nv \<times> Ns\<close>, \<open>s\<close> of length
  \<open>Ns\<close>), an empty pole sequence and \<^verbatim>\<open>n_polys = 0\<close>, the call returns, for both values of each
  skip flag and for every library: residues and polynomial coefficients with no entry
  (\<open>Nv\<close> empty rows), the empty pole sequence, a fit of shape \<open>Nv \<times> Ns\<close> that is zero
  everywhere, and as RMS error the norm of \<open>f\<close> divided by the square root of \<open>Nv * Ns\<close>, as
  line 106 divides: for \<open>Nv * Ns > 0\<close> this is the quotient of the two numbers, and for an
  array \<open>f\<close> without elements it is \<open>0 / 0\<close>, which is NaN. The result does not depend on the
  library: no solve is attempted.
\<close>

theorem vectfit_zero_model:
  assumes "shape f = [Nv, Ns]" "shape s = [Ns]" "shape weight = [Nv, Ns]"
  shows "vectfit K f s [] weight 0 skip_pole skip_res =
           Inr \<lparr>out_residues = full Nv 0 0, out_polys = full Nv 0 0, out_poles = [],
                out_rmserr = xdivide (norm_nd f) (sqrt (real (Nv * Ns))),
                out_fit = full Nv Ns 0\<rparr>
         \<and> (0 < Nv * Ns \<longrightarrow>
              xdivide (norm_nd f) (sqrt (real (Nv * Ns)))
                = Number (norm_nd f / sqrt (real (Nv * Ns))))
         \<and> (Nv * Ns = 0 \<and> elems f = [] \<longrightarrow>
              xdivide (norm_nd f) (sqrt (real (Nv * Ns))) = NaN)"
proof -
  have "check_arguments f s weight 0 = Inr (Nv, Ns, nat (sint (0 :: 32 word)))"
    using assms by (intro check_arguments_accepts) simp_all
  then have "vectfit K f s [] weight 0 skip_pole skip_res =
           Inr \<lparr>out_residues = full Nv 0 0, out_polys = full Nv 0 0, out_poles = [],
                out_rmserr = xdivide (norm_nd f) (sqrt (real (Nv * Ns))),
                out_fit = full Nv Ns 0\<rparr>"
    by (simp add: vectfit_checked)
  moreover have "Nv * Ns = 0 \<and> elems f = [] \<longrightarrow>
      xdivide (norm_nd f) (sqrt (real (Nv * Ns))) = NaN"
    by (auto simp: xdivide_def norm_nd_def)
  ultimately show ?thesis
    using xdivide_sqrt_size [of Nv Ns "norm_nd f"] by blast
qed

text \<open>
  The example of the specification, with a library whose solvers all fail: \<open>Nv = 1\<close>,
  \<open>Ns = 3\<close>, \<open>f = [1, 2, 3]\<close>, \<open>weight = [1, 1, 1]\<close> give the RMS error \<open>sqrt 14 / sqrt 3\<close>. An
  array \<open>f\<close> of shape \<open>1 \<times> 0\<close> gives the RMS error NaN.
\<close>

theorem vectfit_zero_model_witness:
  "vectfit failing_kernels f123 s012 [] w111 0 False False =
     Inr \<lparr>out_residues = [[]], out_polys = [[]], out_poles = [],
          out_rmserr = Number (sqrt 14 / sqrt 3), out_fit = [[0, 0, 0]]\<rparr>
   \<and> vectfit failing_kernels \<lparr>shape = [1, 0], elems = []\<rparr> \<lparr>shape = [0], elems = []\<rparr> []
       \<lparr>shape = [1, 0], elems = []\<rparr> 0 False False =
     Inr \<lparr>out_residues = [[]], out_polys = [[]], out_poles = [],
          out_rmserr = NaN, out_fit = [[]]\<rparr>"
  using vectfit_zero_model [of f123 1 3 s012 w111 failing_kernels False False]
    vectfit_zero_model [of "\<lparr>shape = [1, 0], elems = []\<rparr>" 1 0 "\<lparr>shape = [0], elems = []\<rparr>"
      "\<lparr>shape = [1, 0], elems = []\<rparr>" failing_kernels False False]
  by (simp add: f123_def s012_def w111_def full_def norm_nd_def numeral_3_eq_3 xdivide_def)

subsection \<open>Both stages skipped\<close>

text \<open>
  C10. If \<^verbatim>\<open>skip_pole\<close> and \<^verbatim>\<open>skip_res\<close> are both true, the argument checks pass and it is
  not the case that both \<open>N = 0\<close> and \<^verbatim>\<open>n_polys = 0\<close>, then the call succeeds for every pole
  sequence and every library, and returns all-zero residues, polynomial coefficients and
  fit, the RMS error 0 and the poles of the input unchanged. The pairing of the poles is
  not examined.
\<close>

theorem vectfit_both_skipped:
  assumes "shape f = [Nv, Ns]" "shape s = [Ns]" "shape weight = [Nv, Ns]"
    and "0 \<le> sint n_polys" "sint n_polys \<le> 11"
    and "\<not> (poles = [] \<and> sint n_polys = 0)"
  shows "vectfit K f s poles weight n_polys True True =
           Inr \<lparr>out_residues = full Nv (length poles) 0,
                out_polys = full Nv (nat (sint n_polys)) 0,
                out_poles = poles, out_rmserr = Number 0, out_fit = full Nv Ns 0\<rparr>"
proof -
  have c: "check_arguments f s weight n_polys = Inr (Nv, Ns, nat (sint n_polys))"
    using assms(1-5) by (rule check_arguments_accepts)
  have "\<not> (poles = [] \<and> nat (sint n_polys) = 0)"
    using assms(4,6) by auto
  then show ?thesis
    by (auto simp add: vectfit_checked [OF c] then_do_def)
qed

text \<open>The example: the poles \<open>1 + 2i, 3 + 4i\<close> are not a conjugate pair, and the call succeeds.\<close>

theorem vectfit_both_skipped_witness:
  "\<not> conjugate_paired [1 + 2 * \<i>, 3 + 4 * \<i>] \<and>
   vectfit failing_kernels f123 s012 [1 + 2 * \<i>, 3 + 4 * \<i>] w111 0 True True =
     Inr \<lparr>out_residues = [[0, 0]], out_polys = [[]], out_poles = [1 + 2 * \<i>, 3 + 4 * \<i>],
          out_rmserr = Number 0, out_fit = [[0, 0, 0]]\<rparr>"
  using vectfit_both_skipped [of f123 1 3 s012 w111 0 "[1 + 2 * \<i>, 3 + 4 * \<i>]" failing_kernels]
  by (simp add: f123_def s012_def w111_def full_def complex_eq_iff numeral_3_eq_3)

subsection \<open>Poles that are not paired\<close>

text \<open>
  C5. Let the argument checks pass. A pole sequence is paired when every pole with nonzero
  imaginary part that is not itself the conjugate partner of the pole before it is
  followed at once by its exact complex conjugate (\<open>conjugate_paired\<close>); a complex pole in
  the last position and an adjacent pair that is not conjugate break the pairing.
  If at least one stage is not skipped and the poles of the input are not paired, the call
  fails with the invalid-argument error of the classification and returns nothing. If
  neither stage is skipped and pole identification returns poles that are not paired, the
  call fails with the same error: the check runs again on the relocated poles before
  residue identification.
\<close>

theorem vectfit_rejects_unpaired_poles:
  assumes "shape f = [Nv, Ns]" "shape s = [Ns]" "shape weight = [Nv, Ns]"
    and "0 \<le> sint n_polys" "sint n_polys \<le> 11"
  shows "((\<not> skip_pole \<or> \<not> skip_res) \<and> \<not> conjugate_paired poles \<longrightarrow>
            vectfit K f s poles weight n_polys skip_pole skip_res
              = Inl (InvalidArgument pairing_message))
       \<and> (poles \<noteq> [] \<and>
            pole_identification K f weight (map (at1 s) [0..<Ns]) poles (nat (sint n_polys))
              = Inr poles' \<and>
            \<not> conjugate_paired poles' \<longrightarrow>
            vectfit K f s poles weight n_polys False False
              = Inl (InvalidArgument pairing_message))"
proof -
  have c: "check_arguments f s weight n_polys = Inr (Nv, Ns, nat (sint n_polys))"
    using assms by (rule check_arguments_accepts)
  have ne: "\<not> conjugate_paired poles \<Longrightarrow> poles \<noteq> []" by auto
  show ?thesis
    using ne
    by (auto simp add: vectfit_checked [OF c] then_do_def pole_identification_unpaired
        residue_identification_unpaired)
qed

text \<open>
  The examples: the adjacent pair \<open>1 + 2i, 3 + 4i\<close>; a complex pole in the last position,
  checked by residue identification when pole identification is skipped; three real poles
  that an eigenvalue routine relocates to \<open>i, 2, -i\<close>; and the conjugate pair
  \<open>1 + 2i, 1 - 2i\<close> that an eigenvalue routine relocates to \<open>i, 3\<close>.
\<close>

theorem vectfit_rejects_unpaired_poles_witness:
  "\<not> conjugate_paired [1 + 2 * \<i>, 3 + 4 * \<i>]
   \<and> vectfit failing_kernels f123 s012 [1 + 2 * \<i>, 3 + 4 * \<i>] w111 0 False False
     = Inl (InvalidArgument pairing_message)
   \<and> \<not> conjugate_paired [3, 1 + 2 * \<i>]
   \<and> vectfit failing_kernels f123 s012 [3, 1 + 2 * \<i>] w111 0 True False
     = Inl (InvalidArgument pairing_message)
   \<and> \<not> conjugate_paired [\<i>, 2, - \<i>]
   \<and> pole_identification (fixed_kernels [1, 1, 1, 1] [] (\<lambda>ZER. [\<i>, 2, - \<i>]) []) f123 w111
       (map (at1 s012) [0..<3]) [- 1, - 2, - 3] (nat (sint (0 :: 32 word))) = Inr [\<i>, 2, - \<i>]
   \<and> vectfit (fixed_kernels [1, 1, 1, 1] [] (\<lambda>ZER. [\<i>, 2, - \<i>]) []) f123 s012
       [- 1, - 2, - 3] w111 0 False False
     = Inl (InvalidArgument pairing_message)
   \<and> \<not> conjugate_paired [\<i>, 3]
   \<and> pole_identification (fixed_kernels [1, 1, 1] [] (\<lambda>ZER. [\<i>, 3]) []) f123 w111
       (map (at1 s012) [0..<3]) [1 + 2 * \<i>, 1 - 2 * \<i>] (nat (sint (0 :: 32 word)))
     = Inr [\<i>, 3]
   \<and> vectfit (fixed_kernels [1, 1, 1] [] (\<lambda>ZER. [\<i>, 3]) []) f123 s012
       [1 + 2 * \<i>, 1 - 2 * \<i>] w111 0 False False
     = Inl (InvalidArgument pairing_message)"
proof -
  let ?K = "fixed_kernels [1, 1, 1, 1] [] (\<lambda>ZER. [\<i>, 2, - \<i>]) []"
  let ?L = "fixed_kernels [1, 1, 1] [] (\<lambda>ZER. [\<i>, 3]) []"
  have sh: "shape f123 = [1, 3]" "shape s012 = [3]" "shape w111 = [1, 3]"
    by (simp_all add: f123_def s012_def w111_def)
  have n: "0 \<le> sint (0 :: 32 word)" "sint (0 :: 32 word) \<le> 11" by simp_all
  have u1: "\<not> conjugate_paired [1 + 2 * \<i>, 3 + 4 * \<i>]" by (simp add: complex_eq_iff)
  have u2: "\<not> conjugate_paired [3, 1 + 2 * \<i>]" by simp
  have u3: "\<not> conjugate_paired [\<i>, 2, - \<i>]" by (simp add: complex_eq_iff)
  have u4: "\<not> conjugate_paired [\<i>, 3]" by (simp add: complex_eq_iff)
  have p: "pole_identification ?K f123 w111 (map (at1 s012) [0..<3]) [- 1, - 2, - 3]
             (nat (sint (0 :: 32 word))) = Inr [\<i>, 2, - \<i>]"
    by (simp add: model_defs)
  have q: "pole_identification ?L f123 w111 (map (at1 s012) [0..<3])
             [1 + 2 * \<i>, 1 - 2 * \<i>] (nat (sint (0 :: 32 word))) = Inr [\<i>, 3]"
    by (simp add: model_defs)
  show ?thesis
    using vectfit_rejects_unpaired_poles [OF sh n, of False False "[1 + 2 * \<i>, 3 + 4 * \<i>]" failing_kernels]
      vectfit_rejects_unpaired_poles [OF sh n, of True False "[3, 1 + 2 * \<i>]" failing_kernels]
      vectfit_rejects_unpaired_poles [OF sh n, of False False "[- 1, - 2, - 3]" ?K "[\<i>, 2, - \<i>]"]
      vectfit_rejects_unpaired_poles [OF sh n, of False False "[1 + 2 * \<i>, 1 - 2 * \<i>]" ?L "[\<i>, 3]"]
      u1 u2 u3 u4 p q
    by simp
qed

subsection \<open>Skipped stages\<close>

text \<open>
  C9, as stated, fails for the zero model: with no poles and \<^verbatim>\<open>n_polys = 0\<close> the call returns
  before it looks at the skip flags, and with \<^verbatim>\<open>skip_res = true\<close> the RMS error is the
  scaled norm of \<open>f\<close>, here \<open>sqrt 14 / sqrt 3\<close>, not 0.
\<close>

theorem vectfit_skip_res_zero_model_counterexample:
  "vectfit failing_kernels f123 s012 [] w111 0 False True =
     Inr \<lparr>out_residues = [[]], out_polys = [[]], out_poles = [],
          out_rmserr = Number (sqrt 14 / sqrt 3), out_fit = [[0, 0, 0]]\<rparr>
   \<and> Number (sqrt 14 / sqrt 3) \<noteq> Number 0"
  by (simp add: model_defs)

lemma pole_stage_cases:
  assumes "check_arguments f s weight n_polys = Inr (Nv, Ns, Nc)"
    and "vectfit K f s poles weight n_polys skip_pole skip_res = Inr out"
  shows "(poles = [] \<and> Nc = 0 \<and> out_poles out = poles)
       \<or> (\<not> (poles = [] \<and> Nc = 0) \<and>
           (if \<not> skip_pole \<and> poles \<noteq> []
            then pole_identification K f weight (map (at1 s) [0..<Ns]) poles Nc
            else Inr poles) = Inr (out_poles out))"
  using assms(2) unfolding vectfit_checked [OF assms(1)]
  by (auto simp: then_do_def split: if_splits sum.splits
      dest: residue_identification_poles)

text \<open>
  C9, amended. Let the argument checks pass.
  \<^item> A call with \<^verbatim>\<open>skip_res = true\<close> that returns, returns all-zero residues, polynomial
    coefficients and fit, on every input; its RMS error is 0, except for the zero model
    (both \<open>N = 0\<close> and \<^verbatim>\<open>n_polys = 0\<close>), where it is the norm of \<open>f\<close> divided by the square root
    of \<open>Nv * Ns\<close>.
  \<^item> If the full call (\<^verbatim>\<open>skip_res = false\<close>) returns, the call with \<^verbatim>\<open>skip_res = true\<close> on the
    same input returns too, and with the same poles.
  \<^item> A call with \<^verbatim>\<open>skip_pole = true\<close> that returns, returns the poles of the input.
\<close>

theorem vectfit_skip_stages:
  assumes "shape f = [Nv, Ns]" "shape s = [Ns]" "shape weight = [Nv, Ns]"
    and "0 \<le> sint n_polys" "sint n_polys \<le> 11"
  shows "(vectfit K f s poles weight n_polys skip_pole True = Inr out \<longrightarrow>
            out_residues out = full Nv (length poles) 0 \<and>
            out_polys out = full Nv (nat (sint n_polys)) 0 \<and>
            out_fit out = full Nv Ns 0 \<and>
            out_rmserr out =
              (if poles = [] \<and> sint n_polys = 0
               then xdivide (norm_nd f) (sqrt (real (Nv * Ns))) else Number 0))
       \<and> (vectfit K f s poles weight n_polys skip_pole False = Inr out' \<longrightarrow>
            (\<exists>out. vectfit K f s poles weight n_polys skip_pole True = Inr out \<and>
                   out_poles out = out_poles out'))
       \<and> (vectfit K f s poles weight n_polys True skip_res = Inr out'' \<longrightarrow>
            out_poles out'' = poles)"
proof -
  have c: "check_arguments f s weight n_polys = Inr (Nv, Ns, nat (sint n_polys))"
    using assms by (rule check_arguments_accepts)
  have z: "(poles = [] \<and> nat (sint n_polys) = 0) = (poles = [] \<and> sint n_polys = 0)"
    using assms(4) by auto
  have 1: "out_residues out = full Nv (length poles) 0 \<and>
            out_polys out = full Nv (nat (sint n_polys)) 0 \<and>
            out_fit out = full Nv Ns 0 \<and>
            out_rmserr out =
              (if poles = [] \<and> sint n_polys = 0
               then xdivide (norm_nd f) (sqrt (real (Nv * Ns))) else Number 0)"
    if "vectfit K f s poles weight n_polys skip_pole True = Inr out"
    using that unfolding vectfit_checked [OF c] z
    by (auto simp: then_do_def split: sum.splits if_splits)
  have 2: "\<exists>out. vectfit K f s poles weight n_polys skip_pole True = Inr out \<and>
                   out_poles out = out_poles out'"
    if a: "vectfit K f s poles weight n_polys skip_pole False = Inr out'"
    using pole_stage_cases [OF c a]
    unfolding vectfit_checked [OF c]
    by (auto simp: then_do_def split: if_splits)
  have 3: "out_poles out'' = poles"
    if a: "vectfit K f s poles weight n_polys True skip_res = Inr out''"
    using pole_stage_cases [OF c a] by auto
  show ?thesis using 1 2 3 by blast
qed

text \<open>
  The examples, with the conjugate pair \<open>1 + 2i, 1 - 2i\<close> that pole identification relocates
  to \<open>3 + 4i, 3 - 4i\<close>: the call with \<^verbatim>\<open>skip_res = true\<close>, the full call, which returns the same
  poles, and the call with \<^verbatim>\<open>skip_pole = true\<close>, which returns the poles of the input.
\<close>

theorem vectfit_skip_stages_witness:
  "vectfit (fixed_kernels [1, 1, 1] [] (\<lambda>ZER. [3 + 4 * \<i>, 3 - 4 * \<i>]) [5, 6]) f123 s012
     [1 + 2 * \<i>, 1 - 2 * \<i>] w111 0 False True
     = Inr \<lparr>out_residues = [[0, 0]], out_polys = [[]],
            out_poles = [3 + 4 * \<i>, 3 - 4 * \<i>],
            out_rmserr = Number 0, out_fit = [[0, 0, 0]]\<rparr>
   \<and> vectfit (fixed_kernels [1, 1, 1] [] (\<lambda>ZER. [3 + 4 * \<i>, 3 - 4 * \<i>]) [5, 6]) f123 s012
     [1 + 2 * \<i>, 1 - 2 * \<i>] w111 0 False False
     = Inr \<lparr>out_residues = [[5 + \<i> * 6, 5 - \<i> * 6]], out_polys = [[]],
            out_poles = [3 + 4 * \<i>, 3 - 4 * \<i>],
            out_rmserr = Number 0, out_fit = [[0, 0, 0]]\<rparr>
   \<and> vectfit (fixed_kernels [1, 1, 1] [] (\<lambda>ZER. [3 + 4 * \<i>, 3 - 4 * \<i>]) [5, 6]) f123 s012
     [1 + 2 * \<i>, 1 - 2 * \<i>] w111 0 True False
     = Inr \<lparr>out_residues = [[5 + \<i> * 6, 5 - \<i> * 6]], out_polys = [[]],
            out_poles = [1 + 2 * \<i>, 1 - 2 * \<i>],
            out_rmserr = Number 0, out_fit = [[0, 0, 0]]\<rparr>"
proof -
  let ?K = "fixed_kernels [1, 1, 1] [] (\<lambda>ZER. [3 + 4 * \<i>, 3 - 4 * \<i>]) [5, 6]"
  let ?p = "[1 + 2 * \<i>, 1 - 2 * \<i>]"
  let ?o1 = "\<lparr>out_residues = [[0, 0]], out_polys = [[]],
            out_poles = [3 + 4 * \<i>, 3 - 4 * \<i>],
            out_rmserr = Number 0, out_fit = [[0, 0, 0]]\<rparr>"
  let ?o2 = "\<lparr>out_residues = [[5 + \<i> * 6, 5 - \<i> * 6]], out_polys = [[]],
            out_poles = [3 + 4 * \<i>, 3 - 4 * \<i>],
            out_rmserr = Number 0, out_fit = [[0, 0, 0]]\<rparr>"
  let ?o3 = "\<lparr>out_residues = [[5 + \<i> * 6, 5 - \<i> * 6]], out_polys = [[]],
            out_poles = [1 + 2 * \<i>, 1 - 2 * \<i>],
            out_rmserr = Number 0, out_fit = [[0, 0, 0]]\<rparr>"
  have sh: "shape f123 = [1, 3]" "shape s012 = [3]" "shape w111 = [1, 3]"
    by (simp_all add: f123_def s012_def w111_def)
  have n: "0 \<le> sint (0 :: 32 word)" "sint (0 :: 32 word) \<le> 11" by simp_all
  have a: "vectfit ?K f123 s012 ?p w111 0 False True = Inr ?o1"
    by (simp add: model_defs)
  have b: "vectfit ?K f123 s012 ?p w111 0 False False = Inr ?o2"
    by (simp add: model_defs)
  have c: "vectfit ?K f123 s012 ?p w111 0 True False = Inr ?o3"
    by (simp add: model_defs)
  show ?thesis
    using vectfit_skip_stages [OF sh n, of ?K ?p False ?o1 ?o2 False ?o3] a b c
    by simp
qed

subsection \<open>The shape of the basis matrices\<close>

lemma has_shape_full: "has_shape (full r c v) r c"
  by (simp add: has_shape_def full_def)

lemma has_shape_set_col: "has_shape M r c \<Longrightarrow> has_shape (set_col M j col) r c"
  by (simp add: has_shape_def set_col_def)

lemma set_col_nth:
  "has_shape M r c \<Longrightarrow> k < r \<Longrightarrow>
   set_col M j col ! k ! i = (if i = j \<and> j < c then col ! k else M ! k ! i)"
  by (auto simp: has_shape_def set_col_def list_update_beyond)

lemma has_shape_replace_inf: "has_shape M r c \<Longrightarrow> has_shape (replace_inf M) r c"
  by (simp add: has_shape_def replace_inf_def)

lemma classified_tags:
  assumes "classify poles = Inr cindex" "m < length poles"
  shows "cindex ! m = 0 \<or> cindex ! m = 1 \<or> cindex ! m = 2"
  using classify_classified [OF assms(1)] assms(2)
  unfolding classified_upto_def by blast

lemma pole_column_tagged:
  "c = 0 \<or> c = 1 \<or> c = 2 \<Longrightarrow> \<exists>col. pole_column c p sv = Inr col"
  by (auto simp: pole_column_def)

lemma for_each_pole_columns:
  assumes "\<forall>m \<in> set ms. cindex ! m = 0 \<or> cindex ! m = 1 \<or> cindex ! m = 2"
    and "has_shape Dk r c"
  shows "\<exists>Dk'. for_each ms
            (\<lambda>m Dk. then_do (pole_column (cindex ! m) (poles ! m) sv)
                       (\<lambda>col. Inr (set_col Dk m col))) Dk = Inr Dk'
          \<and> has_shape Dk' r c"
  using assms
proof (induction ms arbitrary: Dk)
  case Nil
  then show ?case by simp
next
  case (Cons m ms)
  have "cindex ! m = 0 \<or> cindex ! m = 1 \<or> cindex ! m = 2"
    using Cons.prems(1) by simp
  then obtain col where col: "pole_column (cindex ! m) (poles ! m) sv = Inr col"
    using pole_column_tagged by blast
  have "has_shape (set_col Dk m col) r c"
    using Cons.prems(2) by (rule has_shape_set_col)
  then show ?case
    using Cons.IH [of "set_col Dk m col"] Cons.prems(1) col
    by (simp add: then_do_def)
qed

lemma pole_columns_shape:
  assumes "classify poles = Inr cindex" "has_shape Dk r c"
  shows "\<exists>Dk'. pole_columns cindex poles sv Dk = Inr Dk' \<and> has_shape Dk' r c"
  unfolding pole_columns_def
  using classified_tags [OF assms(1)] assms(2)
  by (intro for_each_pole_columns) auto

lemma power_columns_shape:
  "has_shape Dk r c \<Longrightarrow>
   has_shape (fold (\<lambda>m Dk. set_col Dk (N + m) (power_column sv m)) ms Dk) r c"
  by (induction ms arbitrary: Dk) (simp_all add: has_shape_set_col)

lemma power_columns_keep:
  "has_shape Dk r c \<Longrightarrow> k < r \<Longrightarrow> \<forall>m \<in> set ms. N + m \<noteq> i \<Longrightarrow>
   fold (\<lambda>m Dk. set_col Dk (N + m) (power_column sv m)) ms Dk ! k ! i = Dk ! k ! i"
proof (induction ms arbitrary: Dk)
  case Nil
  then show ?case by simp
next
  case (Cons m ms)
  have "has_shape (set_col Dk (N + m) (power_column sv m)) r c"
    using Cons.prems(1) by (rule has_shape_set_col)
  then show ?case
    using Cons.IH [of "set_col Dk (N + m) (power_column sv m)"] Cons.prems
    by (simp add: set_col_nth)
qed

lemma has_shape_rows: "has_shape M r c \<Longrightarrow> row \<in> set M \<Longrightarrow> length row = c"
  by (auto simp: has_shape_def in_set_conv_nth)

lemma has_shape_column:
  "has_shape M r c \<Longrightarrow> \<forall>k<r. M ! k ! j = v \<Longrightarrow> row \<in> set M \<Longrightarrow> row ! j = v"
  by (auto simp: has_shape_def in_set_conv_nth)

lemma Dk_pole_shape:
  assumes "classify poles = Inr cindex"
  shows "\<exists>Dk. Dk_pole cindex poles sv Nc = Inr Dk
           \<and> has_shape Dk (length sv) (length poles + max Nc 1)
           \<and> (\<forall>k<length sv. Dk ! k ! length poles = Finite 1)"
proof -
  obtain Dk1 where 1: "pole_columns cindex poles sv
        (full (length sv) (length poles + max Nc 1) (Finite 0)) = Inr Dk1"
      and s1: "has_shape Dk1 (length sv) (length poles + max Nc 1)"
    using pole_columns_shape [OF assms has_shape_full] by blast
  define Dk2 where "Dk2 = set_col (replace_inf Dk1) (length poles)
                            (replicate (length sv) (Finite 1))"
  define Dk3 where "Dk3 = fold (\<lambda>m Dk. set_col Dk (length poles + m) (power_column sv m))
                            [1..<Nc] Dk2"
  have s2: "has_shape Dk2 (length sv) (length poles + max Nc 1)"
    unfolding Dk2_def using s1 by (intro has_shape_set_col has_shape_replace_inf)
  have s3: "has_shape Dk3 (length sv) (length poles + max Nc 1)"
    unfolding Dk3_def using s2 by (rule power_columns_shape)
  have r: "Dk_pole cindex poles sv Nc = Inr Dk3"
    unfolding Dk_pole_def Let_def 1 then_do_def Dk3_def Dk2_def by simp
  have one: "Dk3 ! k ! length poles = Finite 1" if "k < length sv" for k
  proof -
    have "Dk3 ! k ! length poles = Dk2 ! k ! length poles"
      unfolding Dk3_def using s2 that by (intro power_columns_keep) auto
    also have "\<dots> = Finite 1"
      unfolding Dk2_def using that has_shape_replace_inf [OF s1] by (simp add: set_col_nth)
    finally show ?thesis .
  qed
  show ?thesis using r s3 one by blast
qed

lemma Dk_residue_shape:
  assumes "classify poles = Inr cindex"
  shows "\<exists>Dk. Dk_residue cindex poles sv Nc = Inr Dk
           \<and> has_shape Dk (length sv) (length poles + Nc)"
proof -
  obtain Dk1 where 1: "pole_columns cindex poles sv
        (full (length sv) (length poles + Nc) (Finite 0)) = Inr Dk1"
      and s1: "has_shape Dk1 (length sv) (length poles + Nc)"
    using pole_columns_shape [OF assms has_shape_full] by blast
  define Dk3 where "Dk3 = fold (\<lambda>m Dk. set_col Dk (length poles + m) (power_column sv m))
                            [0..<Nc] Dk1"
  have s3: "has_shape Dk3 (length sv) (length poles + Nc)"
    unfolding Dk3_def using s1 by (rule power_columns_shape)
  have r: "Dk_residue cindex poles sv Nc = Inr Dk3"
    unfolding Dk_residue_def Let_def 1 then_do_def Dk3_def by simp
  show ?thesis using r s3 by blast
qed

text \<open>
  C7. For poles that the classification accepts, the basis built for pole identification
  has \<open>Ns\<close> rows of \<open>N + max(n_polys, 1)\<close> entries and its column \<open>N\<close> is 1 in every row, also
  when \<^verbatim>\<open>n_polys = 0\<close>; the basis rebuilt for residue identification has \<open>Ns\<close> rows of exactly
  \<open>N + n_polys\<close> entries, so for \<^verbatim>\<open>n_polys = 0\<close> it has the \<open>N\<close> pole columns and no constant
  column.
\<close>

theorem basis_matrix_columns:
  assumes "classify poles = Inr cindex"
  shows "(\<exists>Dk. Dk_pole cindex poles sv Nc = Inr Dk \<and> length Dk = length sv \<and>
            (\<forall>row \<in> set Dk. length row = length poles + max Nc 1
                              \<and> row ! length poles = Finite 1))
       \<and> (\<exists>Dk. Dk_residue cindex poles sv Nc = Inr Dk \<and> length Dk = length sv \<and>
            (\<forall>row \<in> set Dk. length row = length poles + Nc))"
proof
  obtain Dk where Dk: "Dk_pole cindex poles sv Nc = Inr Dk"
      "has_shape Dk (length sv) (length poles + max Nc 1)"
      "\<forall>k<length sv. Dk ! k ! length poles = Finite 1"
    using Dk_pole_shape [OF assms] by blast
  have "length Dk = length sv" using Dk(2) by (simp add: has_shape_def)
  moreover have "\<forall>row \<in> set Dk. length row = length poles + max Nc 1
                              \<and> row ! length poles = Finite 1"
    using has_shape_rows [OF Dk(2)] has_shape_column [OF Dk(2) Dk(3)] by blast
  ultimately show "\<exists>Dk. Dk_pole cindex poles sv Nc = Inr Dk \<and> length Dk = length sv \<and>
            (\<forall>row \<in> set Dk. length row = length poles + max Nc 1
                              \<and> row ! length poles = Finite 1)"
    using Dk(1) by blast
next
  obtain Dk where Dk: "Dk_residue cindex poles sv Nc = Inr Dk"
      "has_shape Dk (length sv) (length poles + Nc)"
    using Dk_residue_shape [OF assms] by blast
  have "length Dk = length sv" using Dk(2) by (simp add: has_shape_def)
  moreover have "\<forall>row \<in> set Dk. length row = length poles + Nc"
    using has_shape_rows [OF Dk(2)] by blast
  ultimately show "\<exists>Dk. Dk_residue cindex poles sv Nc = Inr Dk \<and> length Dk = length sv \<and>
            (\<forall>row \<in> set Dk. length row = length poles + Nc)"
    using Dk(1) by blast
qed

text \<open>
  The example: the poles \<open>1 + 2i, 1 - 2i, 3\<close>, the samples \<open>1, 2\<close> and \<^verbatim>\<open>n_polys = 0\<close>. The first
  basis has a fourth column of ones, the second has three columns.
\<close>

theorem basis_matrix_columns_witness:
  "classify [1 + 2 * \<i>, 1 - 2 * \<i>, 3] = Inr [1, 2, 0]
   \<and> Dk_pole [1, 2, 0] [1 + 2 * \<i>, 1 - 2 * \<i>, 3] [1, 2] 0
       = Inr [[Finite 0, Finite (- 1), Finite (- (1 / 2)), Finite 1],
              [Finite (2 / 5), Finite (- (4 / 5)), Finite (- 1), Finite 1]]
   \<and> Dk_residue [1, 2, 0] [1 + 2 * \<i>, 1 - 2 * \<i>, 3] [1, 2] 0
       = Inr [[Finite 0, Finite (- 1), Finite (- (1 / 2))],
              [Finite (2 / 5), Finite (- (4 / 5)), Finite (- 1)]]"
proof -
  have c: "classify [1 + 2 * \<i>, 1 - 2 * \<i>, 3] = Inr [1, 2, 0]"
    by (simp add: model_defs)
  have p: "Dk_pole [1, 2, 0] [1 + 2 * \<i>, 1 - 2 * \<i>, 3] [1, 2] 0
       = Inr [[Finite 0, Finite (- 1), Finite (- (1 / 2)), Finite 1],
              [Finite (2 / 5), Finite (- (4 / 5)), Finite (- 1), Finite 1]]"
    by (simp add: model_defs complex_eq_iff Re_divide Im_divide power2_eq_square)
  have r: "Dk_residue [1, 2, 0] [1 + 2 * \<i>, 1 - 2 * \<i>, 3] [1, 2] 0
       = Inr [[Finite 0, Finite (- 1), Finite (- (1 / 2))],
              [Finite (2 / 5), Finite (- (4 / 5)), Finite (- 1)]]"
    by (simp add: model_defs complex_eq_iff Re_divide Im_divide power2_eq_square)
  show ?thesis
    using basis_matrix_columns [OF c, of "[1, 2]" 0] c p r by simp
qed

subsection \<open>The recombination of the residues\<close>

lemma for_each_append:
  "for_each (xs @ ys) body st = then_do (for_each xs body st) (for_each ys body)"
  by (induction xs arbitrary: st) (simp_all add: then_do_def split: sum.splits)

lemma for_each_upt:
  assumes "I 0 st"
    and "\<And>k st. k < n \<Longrightarrow> I k st \<Longrightarrow> \<exists>st'. body k st = Inr st' \<and> I (Suc k) st'"
  shows "\<exists>st'. for_each [0..<n] body st = Inr st' \<and> I n st'"
  using assms(2)
proof (induction n)
  case 0
  then show ?case using assms(1) by simp
next
  case (Suc n)
  obtain st1 where 1: "for_each [0..<n] body st = Inr st1" "I n st1"
    using Suc.IH Suc.prems by (metis less_Suc_eq)
  obtain st2 where 2: "body n st1 = Inr st2" "I (Suc n) st2"
    using Suc.prems [of n st1] 1(2) by blast
  show ?case
    using 1 2 by (simp add: for_each_append then_do_def)
qed

lemma mat_set_ok:
  assumes "has_shape R r c" "i < r" "j < c"
  shows "\<exists>R'. mat_set R i j v = Inr R' \<and> has_shape R' r c
           \<and> (\<forall>n<r. \<forall>l<c. R' ! n ! l = (if n = i \<and> l = j then v else R ! n ! l))"
proof -
  have "mat_set R i j v = Inr (R[i := (R ! i)[j := v]])"
    using assms by (simp add: mat_set_def has_shape_def)
  moreover have "has_shape (R[i := (R ! i)[j := v]]) r c"
    using assms by (auto simp: has_shape_def nth_list_update)
  moreover have "\<forall>n<r. \<forall>l<c. (R[i := (R ! i)[j := v]]) ! n ! l
                   = (if n = i \<and> l = j then v else R ! n ! l)"
    using assms by (auto simp: has_shape_def nth_list_update)
  ultimately show ?thesis by blast
qed

lemma column_loop:
  assumes "has_shape R Nv N" "m < N"
  shows "\<exists>R'. for_each [0..<Nv] (\<lambda>n R. mat_set R n m (a n)) R = Inr R'
           \<and> has_shape R' Nv N
           \<and> (\<forall>n<Nv. \<forall>j<N. R' ! n ! j = (if j = m then a n else R ! n ! j))"
proof -
  define I where "I k R' \<longleftrightarrow> has_shape R' Nv N
       \<and> (\<forall>n<Nv. \<forall>j<N. R' ! n ! j = (if n < k \<and> j = m then a n else R ! n ! j))" for k R'
  have 0: "I 0 R" using assms(1) by (simp add: I_def)
  have step: "\<exists>R''. mat_set R' k m (a k) = Inr R'' \<and> I (Suc k) R''"
    if kv: "k < Nv" and Ik: "I k R'" for k R'
  proof -
    have sh: "has_shape R' Nv N" using Ik by (simp add: I_def)
    obtain R'' where R'': "mat_set R' k m (a k) = Inr R''" "has_shape R'' Nv N"
        "\<forall>n<Nv. \<forall>l<N. R'' ! n ! l = (if n = k \<and> l = m then a k else R' ! n ! l)"
      using mat_set_ok [OF sh kv assms(2)] by blast
    have "I (Suc k) R''"
      unfolding I_def using R''(2,3) Ik by (auto simp: I_def less_Suc_eq)
    then show ?thesis using R''(1) by blast
  qed
  obtain R' where "for_each [0..<Nv] (\<lambda>n R. mat_set R n m (a n)) R = Inr R'" "I Nv R'"
    using for_each_upt [of I R Nv "\<lambda>n R. mat_set R n m (a n)", OF 0 step] by blast
  then show ?thesis by (auto simp: I_def)
qed

lemma pair_loop:
  assumes "has_shape R Nv N" "m + 1 < N"
  shows "\<exists>R'. for_each [0..<Nv]
                 (\<lambda>n R. then_do (mat_set R n m (a n)) (\<lambda>R. mat_set R n (m + 1) (b n))) R
               = Inr R'
           \<and> has_shape R' Nv N
           \<and> (\<forall>n<Nv. \<forall>j<N. R' ! n ! j
                 = (if j = m then a n else if j = m + 1 then b n else R ! n ! j))"
proof -
  define I where "I k R' \<longleftrightarrow> has_shape R' Nv N
       \<and> (\<forall>n<Nv. \<forall>j<N. R' ! n ! j
             = (if n < k \<and> j = m then a n else if n < k \<and> j = m + 1 then b n
                else R ! n ! j))" for k R'
  have 0: "I 0 R" using assms(1) by (simp add: I_def)
  have step: "\<exists>R''. then_do (mat_set R' k m (a k)) (\<lambda>R. mat_set R k (m + 1) (b k)) = Inr R''
                \<and> I (Suc k) R''"
    if kv: "k < Nv" and Ik: "I k R'" for k R'
  proof -
    have sh: "has_shape R' Nv N" using Ik by (simp add: I_def)
    have m: "m < N" using assms(2) by simp
    obtain R1 where R1: "mat_set R' k m (a k) = Inr R1" "has_shape R1 Nv N"
        "\<forall>n<Nv. \<forall>l<N. R1 ! n ! l = (if n = k \<and> l = m then a k else R' ! n ! l)"
      using mat_set_ok [OF sh kv m] by blast
    obtain R2 where R2: "mat_set R1 k (m + 1) (b k) = Inr R2" "has_shape R2 Nv N"
        "\<forall>n<Nv. \<forall>l<N. R2 ! n ! l = (if n = k \<and> l = m + 1 then b k else R1 ! n ! l)"
      using mat_set_ok [OF R1(2) kv assms(2)] by blast
    have "I (Suc k) R2"
      unfolding I_def using R2(2,3) R1(3) Ik by (auto simp: I_def less_Suc_eq)
    then show ?thesis using R1(1) R2(1) by (simp add: then_do_def)
  qed
  obtain R' where "for_each [0..<Nv]
         (\<lambda>n R. then_do (mat_set R n m (a n)) (\<lambda>R. mat_set R n (m + 1) (b n))) R = Inr R'"
      "I Nv R'"
    using for_each_upt [of I R Nv
        "\<lambda>n R. then_do (mat_set R n m (a n)) (\<lambda>R. mat_set R n (m + 1) (b n))", OF 0 step]
    by blast
  then show ?thesis by (auto simp: I_def)
qed

lemma classified_pair:
  assumes "classify poles = Inr cindex" "m < length poles" "cindex ! m = 1"
  shows "Suc m < length poles \<and> cindex ! Suc m = 2"
proof -
  have "classified_upto poles (length poles) cindex"
    using classify_classified [OF assms(1)] by simp
  then have "(cindex ! m = 0 \<and> Im (poles ! m) = 0)
       \<or> (cindex ! m = 1 \<and> Suc m < length poles \<and> cindex ! Suc m = 2
            \<and> Im (poles ! m) \<noteq> 0 \<and> poles ! Suc m = cnj (poles ! m))
       \<or> (cindex ! m = 2 \<and> 0 < m \<and> cindex ! (m - 1) = 1)"
    using assms(2) unfolding classified_upto_def by blast
  then show ?thesis using assms(3) by auto
qed

lemma secondary_cnj: "secondary Cr n m = cnj (primary Cr n m)"
  by (simp add: primary_def secondary_def)

lemma residues_step_ok:
  assumes tags: "\<forall>m<N. cindex ! m = 1 \<longrightarrow> Suc m < N \<and> cindex ! Suc m = 2"
    and k: "k < N" and sh: "has_shape R Nv N" and rc: "recombined cindex Cr Nv k R"
  shows "\<exists>R'. residues_step cindex Cr Nv k R = Inr R' \<and> has_shape R' Nv N
           \<and> recombined cindex Cr Nv (Suc k) R'"
proof -
  have nk: "Suc m \<noteq> k" if "m < k" "cindex ! m = 1" "cindex ! k \<noteq> 2" for m
    using tags that k by auto
  consider (real) "cindex ! k = 0" | (pair) "cindex ! k = 1"
    | (other) "cindex ! k \<noteq> 0" "cindex ! k \<noteq> 1"
    by blast
  then show ?thesis
  proof cases
    case real
    obtain R' where R': "for_each [0..<Nv]
          (\<lambda>n R. mat_set R n k (complex_of_real (Cr ! n ! k))) R = Inr R'"
        "has_shape R' Nv N"
        "\<forall>n<Nv. \<forall>j<N. R' ! n ! j = (if j = k then complex_of_real (Cr ! n ! k) else R ! n ! j)"
      using column_loop [OF sh k, of "\<lambda>n. complex_of_real (Cr ! n ! k)"] by blast
    have "recombined cindex Cr Nv (Suc k) R'"
      unfolding recombined_def
    proof (intro allI impI conjI)
      fix m n assume m: "m < Suc k" and n: "n < Nv"
      show "R' ! n ! m = complex_of_real (Cr ! n ! m)" if "cindex ! m = 0"
        using R'(3) rc m n k that unfolding recombined_def
        by (cases "m = k") auto
      show "R' ! n ! m = primary Cr n m" if "cindex ! m = 1"
        using R'(3) rc m n k that real unfolding recombined_def
        by (cases "m = k") auto
      show "R' ! n ! (m + 1) = secondary Cr n m" if c: "cindex ! m = 1"
      proof -
        have mk: "m < k" using m c real by (cases "m = k") auto
        have "Suc m \<noteq> k" using nk [OF mk c] real by simp
        moreover have "Suc m < N" using tags mk k c by auto
        ultimately show ?thesis
          using R'(3) rc mk n c unfolding recombined_def by auto
      qed
    qed
    then show ?thesis
      using R'(1,2) real by (auto simp: residues_step_def)
  next
    case pair
    have k1: "k + 1 < N" using tags k pair by auto
    obtain R' where R': "for_each [0..<Nv]
          (\<lambda>n R. then_do (mat_set R n k (primary Cr n k))
                    (\<lambda>R. mat_set R n (k + 1) (secondary Cr n k))) R = Inr R'"
        "has_shape R' Nv N"
        "\<forall>n<Nv. \<forall>j<N. R' ! n ! j
           = (if j = k then primary Cr n k else if j = k + 1 then secondary Cr n k
              else R ! n ! j)"
      using pair_loop [OF sh k1, of "\<lambda>n. primary Cr n k" "\<lambda>n. secondary Cr n k"] by blast
    have "recombined cindex Cr Nv (Suc k) R'"
      unfolding recombined_def
    proof (intro allI impI conjI)
      fix m n assume m: "m < Suc k" and n: "n < Nv"
      show "R' ! n ! m = complex_of_real (Cr ! n ! m)" if "cindex ! m = 0"
        using R'(3) rc m n k that pair unfolding recombined_def
        by (cases "m = k") auto
      show "R' ! n ! m = primary Cr n m" if "cindex ! m = 1"
        using R'(3) rc m n k that unfolding recombined_def
        by (cases "m = k") auto
      show "R' ! n ! (m + 1) = secondary Cr n m" if c: "cindex ! m = 1"
      proof (cases "m = k")
        case True
        then show ?thesis using R'(3) n k1 by auto
      next
        case False
        then have mk: "m < k" using m by simp
        have "Suc m \<noteq> k" using nk [OF mk c] pair by simp
        moreover have "Suc m < N" using tags mk k c by auto
        ultimately show ?thesis
          using R'(3) rc mk n c unfolding recombined_def by auto
      qed
    qed
    then show ?thesis
      using R'(1,2) pair by (auto simp: residues_step_def primary_def secondary_def Let_def)
  next
    case other
    have "recombined cindex Cr Nv (Suc k) R"
      using rc other unfolding recombined_def by (auto simp: less_Suc_eq)
    then show ?thesis
      using sh other by (auto simp: residues_step_def)
  qed
qed

lemma complex_residues_ok:
  assumes tags: "\<forall>m<N. cindex ! m = 1 \<longrightarrow> Suc m < N \<and> cindex ! Suc m = 2"
    and sh: "has_shape R0 Nv N"
  shows "\<exists>R. complex_residues cindex Cr N Nv R0 = Inr R \<and> has_shape R Nv N
           \<and> recombined cindex Cr Nv N R"
proof -
  define I where "I k R \<longleftrightarrow> has_shape R Nv N \<and> recombined cindex Cr Nv k R" for k R
  have 0: "I 0 R0" using sh by (simp add: I_def recombined_def)
  have step: "\<exists>R'. residues_step cindex Cr Nv k R = Inr R' \<and> I (Suc k) R'"
    if kn: "k < N" and Ik: "I k R" for k R
    using residues_step_ok [OF tags kn] Ik unfolding I_def by blast
  show ?thesis
    using for_each_upt [of I R0 N "residues_step cindex Cr Nv", OF 0 step]
    unfolding complex_residues_def I_def by blast
qed

lemma check_arguments_Nv:
  "check_arguments f s weight n_polys = Inr (Nv, Ns, Nc) \<Longrightarrow> Nv = shape f ! 0"
  by (auto simp: check_arguments_def Let_def split: if_splits)

lemma vectfit_Inr_checked:
  "vectfit K f s poles weight n_polys skip_pole skip_res = Inr out \<Longrightarrow>
   \<exists>Ns Nc. check_arguments f s weight n_polys = Inr (shape f ! 0, Ns, Nc)"
proof -
  assume a: "vectfit K f s poles weight n_polys skip_pole skip_res = Inr out"
  then obtain Nv Ns Nc where c: "check_arguments f s weight n_polys = Inr (Nv, Ns, Nc)"
    by (cases "check_arguments f s weight n_polys") (auto simp: vectfit_def then_do_def)
  then show ?thesis using check_arguments_Nv [OF c] by auto
qed

lemma residue_identification_residues:
  assumes "residue_identification K f weight sv poles Nv Nc residues polys = Inr out"
  shows "\<exists>cindex Cr. classify poles = Inr cindex
           \<and> complex_residues cindex Cr (length poles) Nv residues = Inr (out_residues out)"
  using assms
  by (auto simp: residue_identification_def then_do_def Let_def
      split: sum.splits prod.splits)

lemma recombined_pair:
  assumes "classify poles = Inr cindex"
    and "complex_residues cindex Cr (length poles) Nv (full Nv (length poles) 0) = Inr R"
    and "m < length poles" "n < Nv" "cindex ! m = 1"
  shows "R ! n ! m = primary Cr n m \<and> R ! n ! (m + 1) = secondary Cr n m"
proof -
  have tags: "\<forall>m<length poles. cindex ! m = 1 \<longrightarrow> Suc m < length poles \<and> cindex ! Suc m = 2"
    using classified_pair [OF assms(1)] by blast
  obtain R' where "complex_residues cindex Cr (length poles) Nv (full Nv (length poles) 0) = Inr R'"
      "recombined cindex Cr Nv (length poles) R'"
    using complex_residues_ok [OF tags has_shape_full] by blast
  then have "recombined cindex Cr Nv (length poles) R" using assms(2) by simp
  then show ?thesis using assms(3,4,5) unfolding recombined_def by blast
qed

text \<open>
  C6. For poles that the classification accepts, the loop of lines 402--421 writes, for
  every response vector \<open>n\<close> and every pole \<open>m\<close> tagged as the first of a complex pair, the
  residue \<open>r1 + i r2\<close> at \<open>(n, m)\<close> and \<open>r1 - i r2\<close> at \<open>(n, m + 1)\<close>, where \<open>r1 = Cr(n, m)\<close> and
  \<open>r2 = Cr(n, m + 1)\<close> are the solved real coefficients, no access leaves the bounds of the
  residue matrix, and no later step of the loop overwrites the two entries: the second is
  the complex conjugate of the first. Hence in every result that \<^verbatim>\<open>vectfit\<close> returns, the
  residue at \<open>(n, m + 1)\<close> is the exact conjugate of the residue at \<open>(n, m)\<close> for every pole
  \<open>m\<close> of the returned poles that is tagged as the first of a pair.
\<close>

theorem residues_conjugate_symmetry:
  "(classify poles = Inr cindex \<longrightarrow>
      (\<exists>R. complex_residues cindex Cr (length poles) Nv (full Nv (length poles) 0) = Inr R \<and>
         (\<forall>m<length poles. \<forall>n<Nv. cindex ! m = 1 \<longrightarrow>
            R ! n ! m = complex_of_real (Cr ! n ! m) + \<i> * complex_of_real (Cr ! n ! (m + 1)) \<and>
            R ! n ! (m + 1)
              = complex_of_real (Cr ! n ! m) - \<i> * complex_of_real (Cr ! n ! (m + 1)) \<and>
            R ! n ! (m + 1) = cnj (R ! n ! m))))
   \<and> (vectfit K f s poles weight n_polys skip_pole skip_res = Inr out \<and>
      classify (out_poles out) = Inr cindex' \<and>
      m' < length (out_poles out) \<and> cindex' ! m' = 1 \<and> n' < shape f ! 0 \<longrightarrow>
        out_residues out ! n' ! (m' + 1) = cnj (out_residues out ! n' ! m'))"
proof (intro conjI impI)
  assume c: "classify poles = Inr cindex"
  have tags: "\<forall>m<length poles. cindex ! m = 1 \<longrightarrow> Suc m < length poles \<and> cindex ! Suc m = 2"
    using classified_pair [OF c] by blast
  obtain R where R: "complex_residues cindex Cr (length poles) Nv (full Nv (length poles) 0) = Inr R"
    using complex_residues_ok [OF tags has_shape_full] by blast
  have "R ! n ! m = primary Cr n m \<and> R ! n ! (m + 1) = secondary Cr n m
          \<and> R ! n ! (m + 1) = cnj (R ! n ! m)"
    if "m < length poles" "n < Nv" "cindex ! m = 1" for m n
    using recombined_pair [OF c R that] by (simp add: secondary_cnj)
  then show "\<exists>R. complex_residues cindex Cr (length poles) Nv (full Nv (length poles) 0) = Inr R \<and>
         (\<forall>m<length poles. \<forall>n<Nv. cindex ! m = 1 \<longrightarrow>
            R ! n ! m = complex_of_real (Cr ! n ! m) + \<i> * complex_of_real (Cr ! n ! (m + 1)) \<and>
            R ! n ! (m + 1)
              = complex_of_real (Cr ! n ! m) - \<i> * complex_of_real (Cr ! n ! (m + 1)) \<and>
            R ! n ! (m + 1) = cnj (R ! n ! m))"
    using R unfolding primary_def secondary_def by blast
next
  assume a: "vectfit K f s poles weight n_polys skip_pole skip_res = Inr out \<and>
      classify (out_poles out) = Inr cindex' \<and>
      m' < length (out_poles out) \<and> cindex' ! m' = 1 \<and> n' < shape f ! 0"
  then have v: "vectfit K f s poles weight n_polys skip_pole skip_res = Inr out"
    and c: "classify (out_poles out) = Inr cindex'"
    and m: "m' < length (out_poles out)" and t: "cindex' ! m' = 1" and n: "n' < shape f ! 0"
    by simp_all
  obtain Ns Nc where chk: "check_arguments f s weight n_polys = Inr (shape f ! 0, Ns, Nc)"
    using vectfit_Inr_checked [OF v] by blast
  have m1: "Suc m' < length (out_poles out)"
    using classified_pair [OF c m t] by simp
  let ?Nv = "shape f ! 0" and ?sv = "map (at1 s) [0..<Ns]"
  consider (zero) "out_residues out = full ?Nv (length (out_poles out)) 0"
    | (res) poles' where "length poles' = length poles"
        "residue_identification K f weight ?sv poles' ?Nv Nc
           (full ?Nv (length poles) 0) (full ?Nv Nc 0) = Inr out"
    using v unfolding vectfit_checked [OF chk]
    by (auto simp: then_do_def split: if_splits sum.splits
        dest: pole_identification_length) 
  then show "out_residues out ! n' ! (m' + 1) = cnj (out_residues out ! n' ! m')"
  proof cases
    case zero
    then show ?thesis using m m1 n by (simp add: full_def)
  next
    case res
    have p: "out_poles out = poles'" using res(2) by (rule residue_identification_poles)
    obtain cx Cr' where cx: "classify poles' = Inr cx"
        "complex_residues cx Cr' (length poles') ?Nv (full ?Nv (length poles) 0)
           = Inr (out_residues out)"
      using residue_identification_residues [OF res(2)] by blast
    have "cx = cindex'" using cx(1) c p by simp
    then show ?thesis
      using recombined_pair [of poles' cindex' Cr' ?Nv "out_residues out" m' n']
        cx c p m t n res(1)
      by (simp add: secondary_cnj)
  qed
qed

text \<open>
  The example: the poles \<open>1 + 2i, 1 - 2i, 3\<close> with the solved coefficients \<open>5, 6, 7\<close> give the
  residues \<open>5 + 6i, 5 - 6i, 7\<close>, in the loop and in the result of a call that skips pole
  identification.
\<close>

theorem residues_conjugate_symmetry_witness:
  "classify [1 + 2 * \<i>, 1 - 2 * \<i>, 3] = Inr [1, 2, 0]
   \<and> complex_residues [1, 2, 0] [[5, 6, 7]] 3 1 (full 1 3 0)
       = Inr [[5 + \<i> * 6, 5 - \<i> * 6, 7]]
   \<and> vectfit (fixed_kernels [] [] diagonal [5, 6, 7]) f123 s012 [1 + 2 * \<i>, 1 - 2 * \<i>, 3]
       w111 0 True False
       = Inr \<lparr>out_residues = [[5 + \<i> * 6, 5 - \<i> * 6, 7]], out_polys = [[]],
              out_poles = [1 + 2 * \<i>, 1 - 2 * \<i>, 3], out_rmserr = Number 0,
              out_fit = [[0, 0, 0]]\<rparr>
   \<and> 5 - \<i> * 6 = cnj (5 + \<i> * 6)"
proof -
  have c: "classify [1 + 2 * \<i>, 1 - 2 * \<i>, 3] = Inr [1, 2, 0]"
    by (simp add: model_defs)
  have a: "complex_residues [1, 2, 0] [[5, 6, 7]] 3 1 (full 1 3 0)
       = Inr [[5 + \<i> * 6, 5 - \<i> * 6, 7]]"
    by (simp add: model_defs)
  have b: "vectfit (fixed_kernels [] [] diagonal [5, 6, 7]) f123 s012
       [1 + 2 * \<i>, 1 - 2 * \<i>, 3] w111 0 True False
       = Inr \<lparr>out_residues = [[5 + \<i> * 6, 5 - \<i> * 6, 7]], out_polys = [[]],
              out_poles = [1 + 2 * \<i>, 1 - 2 * \<i>, 3], out_rmserr = Number 0,
              out_fit = [[0, 0, 0]]\<rparr>"
    by (simp add: model_defs)
  show ?thesis
    using residues_conjugate_symmetry [where poles = "[1 + 2 * \<i>, 1 - 2 * \<i>, 3]"
        and cindex = "[1, 2, 0]" and Cr = "[[5, 6, 7]]" and Nv = 1
        and K = "fixed_kernels [] [] diagonal [5, 6, 7]" and f = f123 and s = s012
        and weight = w111 and n_polys = 0 and skip_pole = True and skip_res = False
        and cindex' = "[1, 2, 0]" and m' = 0 and n' = 0]
      a b c
    by simp
qed

subsection \<open>Non-finite entries of the basis matrices\<close>

lemma all_finite_replace_inf: "all_finite (replace_inf M)"
  by (auto simp: all_finite_def replace_inf_def isinf_def split: xcomplex.splits)

lemma all_finite_set_col:
  assumes "all_finite M" "\<forall>k<length M. col ! k \<noteq> NonFinite"
  shows "all_finite (set_col M j col)"
  unfolding all_finite_def set_col_def
proof (intro ballI)
  fix row v
  assume row: "row \<in> set (map (\<lambda>k. (M ! k)[j := col ! k]) [0..<length M])"
    and v: "v \<in> set row"
  obtain k where k: "k < length M" "row = (M ! k)[j := col ! k]"
    using row by auto
  have "v \<in> insert (col ! k) (set (M ! k))"
    using v k(2) set_update_subset_insert by fastforce
  moreover have "\<forall>u \<in> set (M ! k). u \<noteq> NonFinite"
    using assms(1) k(1) unfolding all_finite_def by auto
  ultimately show "v \<noteq> NonFinite" using assms(2) k(1) by auto
qed

lemma all_finite_power_columns:
  "all_finite Dk \<Longrightarrow> length Dk = length sv \<Longrightarrow>
   all_finite (fold (\<lambda>m Dk. set_col Dk (N + m) (power_column sv m)) ms Dk)"
proof (induction ms arbitrary: Dk)
  case Nil
  then show ?case by simp
next
  case (Cons m ms)
  have "all_finite (set_col Dk (N + m) (power_column sv m))"
    using Cons.prems by (intro all_finite_set_col) (simp_all add: power_column_def)
  moreover have "length (set_col Dk (N + m) (power_column sv m)) = length sv"
    using Cons.prems(2) by (simp add: set_col_def)
  ultimately show ?case using Cons.IH by simp
qed

lemma Dk_pole_finite:
  assumes "Dk_pole cindex poles sv Nc = Inr Dk"
  shows "all_finite Dk"
proof -
  obtain Dk1 where 1: "pole_columns cindex poles sv
        (full (length sv) (length poles + max Nc 1) (Finite 0)) = Inr Dk1"
    using assms by (auto simp: Dk_pole_def Let_def then_do_def split: sum.splits)
  have l: "length Dk1 = length sv"
  proof -
    have "\<And>Dk0 Dk'. for_each ms
            (\<lambda>m Dk. then_do (pole_column (cindex ! m) (poles ! m) sv)
                       (\<lambda>col. Inr (set_col Dk m col))) Dk0 = Inr Dk'
          \<Longrightarrow> length Dk' = length Dk0" for ms
      by (induction ms) (auto simp: then_do_def set_col_def split: sum.splits)
    then show ?thesis using 1 unfolding pole_columns_def by (simp add: full_def)
  qed
  define Dk2 where "Dk2 = set_col (replace_inf Dk1) (length poles)
                            (replicate (length sv) (Finite 1))"
  have "all_finite Dk2"
    unfolding Dk2_def using l
    by (intro all_finite_set_col all_finite_replace_inf) (simp add: replace_inf_def)
  moreover have "length Dk2 = length sv"
    unfolding Dk2_def using l by (simp add: set_col_def replace_inf_def)
  ultimately have "all_finite (fold (\<lambda>m Dk. set_col Dk (length poles + m) (power_column sv m))
                                 [1..<Nc] Dk2)"
    by (rule all_finite_power_columns)
  moreover have "Dk = fold (\<lambda>m Dk. set_col Dk (length poles + m) (power_column sv m))
                        [1..<Nc] Dk2"
    using assms unfolding Dk_pole_def Let_def 1 then_do_def Dk2_def by simp
  ultimately show ?thesis by simp
qed

lemma pole_columns_entries:
  assumes tags: "classify poles = Inr cindex"
    and sh: "has_shape Dk r c" and Nc: "length poles \<le> c"
  shows "\<exists>Dk'. pole_columns cindex poles sv Dk = Inr Dk' \<and> has_shape Dk' r c
           \<and> (\<forall>m<length poles. \<forall>k<r. \<forall>col.
                 pole_column (cindex ! m) (poles ! m) sv = Inr col \<longrightarrow> Dk' ! k ! m = col ! k)"
proof -
  define I where "I n Dk' \<longleftrightarrow> has_shape Dk' r c
       \<and> (\<forall>m<n. \<forall>k<r. \<forall>col.
             pole_column (cindex ! m) (poles ! m) sv = Inr col \<longrightarrow> Dk' ! k ! m = col ! k)"
    for n Dk'
  have 0: "I 0 Dk" using sh by (simp add: I_def)
  have step: "\<exists>Dk''. then_do (pole_column (cindex ! n) (poles ! n) sv)
                         (\<lambda>col. Inr (set_col Dk' n col)) = Inr Dk'' \<and> I (Suc n) Dk''"
    if n: "n < length poles" and In: "I n Dk'" for n Dk'
  proof -
    have s': "has_shape Dk' r c" using In by (simp add: I_def)
    obtain col where col: "pole_column (cindex ! n) (poles ! n) sv = Inr col"
      using pole_column_tagged [OF classified_tags [OF tags n]] by blast
    have "I (Suc n) (set_col Dk' n col)"
      unfolding I_def
    proof (intro conjI allI impI)
      show "has_shape (set_col Dk' n col) r c" using s' by (rule has_shape_set_col)
    next
      fix m k col'
      assume m: "m < Suc n" and k: "k < r"
        and c': "pole_column (cindex ! m) (poles ! m) sv = Inr col'"
      show "set_col Dk' n col ! k ! m = col' ! k"
      proof (cases "m = n")
        case True
        then show ?thesis using col c' n Nc k by (simp add: set_col_nth [OF s'])
      next
        case False
        then have "m < n" using m by simp
        then show ?thesis using In c' k False by (simp add: set_col_nth [OF s'] I_def)
      qed
    qed
    then show ?thesis using col by (simp add: then_do_def)
  qed
  show ?thesis
    using for_each_upt [of I Dk "length poles"
        "\<lambda>m Dk. then_do (pole_column (cindex ! m) (poles ! m) sv)
                  (\<lambda>col. Inr (set_col Dk m col))", OF 0 step]
    unfolding pole_columns_def I_def by blast
qed

text \<open>
  In the basis of residue identification the entry of a real pole at a sample equal to
  the pole is non-finite.
\<close>

lemma Dk_residue_non_finite:
  assumes tags: "classify poles = Inr cindex"
    and m: "m < length poles" "cindex ! m = 0"
    and k: "k < length sv" "complex_of_real (sv ! k) = poles ! m"
  shows "\<exists>Dk. Dk_residue cindex poles sv Nc = Inr Dk \<and> Dk ! k ! m = NonFinite"
proof -
  obtain Dk1 where 1: "pole_columns cindex poles sv
        (full (length sv) (length poles + Nc) (Finite 0)) = Inr Dk1"
      and s1: "has_shape Dk1 (length sv) (length poles + Nc)"
      and e1: "\<forall>m<length poles. \<forall>k<length sv. \<forall>col.
                 pole_column (cindex ! m) (poles ! m) sv = Inr col \<longrightarrow> Dk1 ! k ! m = col ! k"
    using pole_columns_entries [OF tags has_shape_full, of "length poles + Nc" sv "length sv" "Finite 0"]
    by auto
  define Dk3 where "Dk3 = fold (\<lambda>m Dk. set_col Dk (length poles + m) (power_column sv m))
                            [0..<Nc] Dk1"
  have r: "Dk_residue cindex poles sv Nc = Inr Dk3"
    unfolding Dk_residue_def Let_def 1 then_do_def Dk3_def by simp
  have "Dk3 ! k ! m = Dk1 ! k ! m"
    unfolding Dk3_def using s1 k(1) m(1) by (intro power_columns_keep) auto
  also have "\<dots> = map (\<lambda>sk. quotient 1 (complex_of_real sk - poles ! m)) sv ! k"
    using e1 m k(1) by (simp add: pole_column_def)
  also have "\<dots> = NonFinite"
    using k by (simp add: quotient_def)
  finally show ?thesis using r by blast
qed

text \<open>
  C3, on the code: the replacement is made in the basis of pole identification only. With
  the real pole 1 and the samples \<open>1, 2\<close> the classification accepts the pole; the basis of
  pole identification holds the sentinel \<open>10^18\<close> where the sample meets the pole, but the
  basis of residue identification holds the non-finite entry itself, and the least-squares
  solve of a call that skips pole identification is handed this matrix: a library that
  throws exactly on this matrix makes the call fail.
\<close>

theorem residue_basis_not_replaced:
  "classify [1] = Inr [0]
   \<and> Dk_pole [0] [1] [1, 2] 0 = Inr [[Finite (10 ^ 18), Finite 1], [Finite 1, Finite 1]]
   \<and> Dk_residue [0] [1] [1, 2] 0 = Inr [[NonFinite], [Finite 1]]
   \<and> vectfit (probing_kernels [[NonFinite], [Finite 1]]) f11 s12 [1] f11 0 True False
       = Inl LibraryFailure"
  by (simp add: model_defs f11_def s12_def probing_kernels_def)

subsection \<open>The selector of the pole update\<close>

lemma fold_upt:
  assumes "I 0 st"
    and "\<And>k st. k < n \<Longrightarrow> I k st \<Longrightarrow> I (Suc k) (body k st)"
  shows "I n (fold body [0..<n] st)"
  using assms(2)
proof (induction n)
  case 0
  then show ?case using assms(1) by simp
next
  case (Suc n)
  have "I n (fold body [0..<n] st)"
    using Suc.IH Suc.prems by (metis less_Suc_eq)
  then show ?case using Suc.prems [of n] by simp
qed

text \<open>No index with the column 1 is inside the declared shape \<open>(N, 1)\<close> of the selector.\<close>

lemma selector_column_out_of_bounds: "\<not> in_bounds (N, 1) i 1"
  by (simp add: in_bounds_def)

text \<open>
  At the first pole \<open>m\<close> of a pair both writes to the selector, \<^verbatim>\<open>SERB(m, 1) = 2.0\<close> and
  \<^verbatim>\<open>SERB(m + 1, 1) = 0.0\<close>, are outside its declared shape: the selector after the step is
  what the library makes of them.
\<close>

lemma selector_writes_unchecked:
  "cindex ! m = 1 \<Longrightarrow>
   snd (zeros_step K cindex poles m (LAMBD, SERB))
     = unchecked_set K (unchecked_set K SERB m 1 2) (m + 1) 1 0"
  by (simp add: zeros_step_def assign_def in_bounds_def Let_def)

text \<open>Without a complex pair the selector is left as it was created: all ones.\<close>

lemma zeros_matrices_real:
  assumes "\<forall>k<length poles. cindex ! k \<noteq> 1"
  shows "snd (zeros_matrices K cindex poles) = full (length poles) 1 1"
proof -
  define I where "I k LS \<longleftrightarrow> snd LS = full (length poles) 1 (1 :: real)"
    for k :: nat and LS :: "real mat \<times> real mat"
  have 0: "I 0 (full (length poles) (length poles) 0, full (length poles) 1 1)"
    by (simp add: I_def)
  have step: "I (Suc k) (zeros_step K cindex poles k LS)"
    if k: "k < length poles" and Ik: "I k LS" for k LS
    using assms k Ik by (cases LS) (simp add: I_def zeros_step_def Let_def)
  show ?thesis
    using fold_upt [of I _ "length poles" "zeros_step K cindex poles", OF 0 step]
    unfolding zeros_matrices_def Let_def I_def by simp
qed

text \<open>
  C2, on the code: the selector is accessed outside its declared bounds. For the conjugate
  pair \<open>1 + 2i, 1 - 2i\<close>, which the classification tags \<open>1, 2\<close>, the selector is declared with
  the shape \<open>2 \<times> 1\<close> and the two accesses to it are \<^verbatim>\<open>SERB(0, 1)\<close> and \<^verbatim>\<open>SERB(1, 1)\<close>, both
  outside that shape. For every library the selector after the loop is what the library
  makes of these two writes. With a library that leaves the matrix as it is the selector
  stays \<open>1, 1\<close>, not \<open>2, 0\<close>; with a library that writes into column 0 it is \<open>2, 0\<close>; and the
  pole-update matrix of the call differs accordingly.
\<close>

theorem selector_access_out_of_bounds:
  "classify [1 + 2 * \<i>, 1 - 2 * \<i>] = Inr [1, 2]
   \<and> \<not> in_bounds (2, 1) 0 1 \<and> \<not> in_bounds (2, 1) 1 1
   \<and> zeros_matrices K [1, 2] [1 + 2 * \<i>, 1 - 2 * \<i>]
       = ([[1, 2], [- 2, 1]], unchecked_set K (unchecked_set K [[1], [1]] 0 1 2) 1 1 0)
   \<and> zeros_matrices (fixed_kernels [1, 1, 1] [] diagonal []) [1, 2] [1 + 2 * \<i>, 1 - 2 * \<i>]
       = ([[1, 2], [- 2, 1]], [[1], [1]])
   \<and> zeros_matrices
        ((fixed_kernels [1, 1, 1] [] diagonal []) \<lparr>unchecked_set := first_column_write\<rparr>)
        [1, 2] [1 + 2 * \<i>, 1 - 2 * \<i>]
       = ([[1, 2], [- 2, 1]], [[2], [0]])
   \<and> pole_update_matrix (fixed_kernels [1, 1, 1] [] diagonal []) f11 f11 [1, 2]
        [1 + 2 * \<i>, 1 - 2 * \<i>] 0
       = Inr [[0, 1], [- 3, 0]]
   \<and> pole_update_matrix
        ((fixed_kernels [1, 1, 1] [] diagonal []) \<lparr>unchecked_set := first_column_write\<rparr>)
        f11 f11 [1, 2] [1 + 2 * \<i>, 1 - 2 * \<i>] 0
       = Inr [[- 1, 0], [- 2, 1]]"
  by (simp add: model_defs f11_def)

subsection \<open>The coefficients after the fallback\<close>

lemma scaling_coefficients_C:
  "scaling_coefficients resolve x = Inr (C, D) \<Longrightarrow> C = take (length x - 1) x"
  by (auto simp: scaling_coefficients_def solve_again_def then_do_def Let_def
      split: if_splits sum.splits)

lemma clamp_D_range:
  "\<bar>xl\<bar> < TOLlow \<or> \<bar>xl\<bar> > TOLhigh \<Longrightarrow>
   TOLlow \<le> \<bar>clamp_D xl D\<bar> \<and> \<bar>clamp_D xl D\<bar> \<le> TOLhigh"
  by (auto simp: clamp_D_def TOLlow_def TOLhigh_def)

lemma scaling_coefficients_D:
  "scaling_coefficients resolve x = Inr (C, D) \<Longrightarrow> TOLlow \<le> \<bar>D\<bar> \<and> \<bar>D\<bar> \<le> TOLhigh"
  using clamp_D_range [of "x ! (length x - 1)" "x ! (length x - 1)"]
  by (auto simp: scaling_coefficients_def solve_again_def then_do_def Let_def
      split: if_splits sum.splits)

text \<open>
  C1, on the code: the coefficients of the second solve are not the ones used. Let the
  relaxed solve return \<open>x = [3, 0]\<close>, so that \<open>D = 0\<close>, and let the solve without relaxation
  return the coefficient 5. \<open>D\<close> is set to 1, but the coefficient that goes into the
  pole-update matrix is the 3 of the relaxed solve: for the pole \<open>-1\<close> the matrix is
  \<open>-1 - 3 / 1 = -4\<close>. With the coefficient 5 it would be \<open>-6\<close>, which is the matrix of a
  relaxed solve \<open>x = [5, 1]\<close>.
\<close>

theorem fallback_coefficients_dropped:
  "scaling_coefficients (\<lambda>D. Inr [5]) [3, 0] = Inr ([3], 1)
   \<and> pole_update_matrix (fixed_kernels [3, 0] [5] diagonal []) f123 w111 [0, 1, 2] [- 1] 0
       = Inr [[- 4]]
   \<and> pole_update_matrix (fixed_kernels [5, 1] [] diagonal []) f123 w111 [0, 1, 2] [- 1] 0
       = Inr [[- 6]]"
  by (simp add: model_defs)

end
